theory Spec2Isabelle
  imports Complex_Main "HOL-Library.Multiset" "HOL-Library.AList"
begin

section \<open>Conventions of the embedding\<close>

text \<open>
  The Go sources are embedded function by function. Field names are the source's; a
  field name that several structs share (ID, Timestamp, From, UrgencyDegree) carries a
  short struct prefix, and the single-letter fields of SubjectiveOpinion are written
  \<open>op_T\<close>, \<open>op_D\<close>, \<open>op_I\<close>.

  \<^item> Go's \<open>int\<close> is the 64-bit signed integer: values are \<open>int\<close>, and every
    addition of the source is wrapped by \<open>int64\<close>.
  \<^item> \<open>time.Time\<close> is an instant counted in nanoseconds (\<open>int\<close>); \<open>Sub\<close>
    saturates at the range of \<open>time.Duration\<close> as the library does.
  \<^item> A \<open>float64\<close> that the code only stores, compares or sums (the urgency held
    by a transaction, the total held by a block, the fields of the configuration, the
    trajectory samples) is a \<open>real\<close>: the value is finite. The total urgency of a
    block, which the code tests for equality, is added up with an addition that is a
    parameter of the model. The time factor and the trajectory similarity of the
    reputation engine, which the code computes from the configuration with \<open>math.Pow\<close>
    and \<open>math.Sqrt\<close>, are computed in the reals.
  \<^item> Where the code divides or calls \<open>math.Exp\<close>, the value is an \<open>f64\<close>, which
    adds the two infinities and NaN to the reals with the IEEE-754 rules for them;
    \<open>math.Exp\<close> overflows to \<open>+Inf\<close> and underflows to 0 at the bounds of the library.
    Arithmetic on finite values is exact: rounding to 53 bits, and the overflow or
    underflow that rounding a sum, product or quotient can cause, are not modelled.
    The theorems about \<open>f64\<close> results are stated so that rounding does not touch
    them: they restate the formula that the code evaluates, equate a result with a
    special value or an exactly representable number, or compare results, and rounding
    to nearest is monotone.
  \<^item> Pointers to structs are the structs themselves; a Go map iterated by
    \<open>range\<close> is an association list in insertion order.
  \<^item> A run-time panic is the \<open>Inl\<close> branch of a sum.
  \<^item> Output written with \<open>fmt.Printf\<close> is not part of the state.
\<close>

datatype panic = SliceBoundsOutOfRange | NilPointerDereference

definition int64 :: "int \<Rightarrow> int" where
  "int64 n = (n + 2 ^ 63) mod 2 ^ 64 - 2 ^ 63"

type_synonym Time = int

definition minDuration :: int where
  "minDuration = - (2 ^ 63)"

definition maxDuration :: int where
  "maxDuration = 2 ^ 63 - 1"

definition Sub :: "Time \<Rightarrow> Time \<Rightarrow> int" where
  "Sub t u = (if t - u < minDuration then minDuration
              else if maxDuration < t - u then maxDuration else t - u)"

definition Seconds :: "int \<Rightarrow> real" where
  "Seconds d = real_of_int d / 1000000000"

definition After :: "Time \<Rightarrow> Time \<Rightarrow> bool" where
  "After t u = (u < t)"

section \<open>float64 values that can be infinite or NaN\<close>

text \<open>
  \<open>Fin r\<close> is the finite value \<open>r\<close>. The operations follow IEEE-754 on the special
  values and are exact on finite ones. Zero carries no sign: a non-zero finite value
  divided by zero is the infinity of the numerator's sign.
\<close>

datatype f64 = Fin real | PInf | NInf | NaN

fun fneg :: "f64 \<Rightarrow> f64" where
  "fneg (Fin a) = Fin (- a)"
| "fneg PInf = NInf"
| "fneg NInf = PInf"
| "fneg NaN = NaN"

fun fadd :: "f64 \<Rightarrow> f64 \<Rightarrow> f64" where
  "fadd (Fin a) (Fin b) = Fin (a + b)"
| "fadd NaN _ = NaN"
| "fadd _ NaN = NaN"
| "fadd PInf NInf = NaN"
| "fadd NInf PInf = NaN"
| "fadd PInf _ = PInf"
| "fadd _ PInf = PInf"
| "fadd NInf _ = NInf"
| "fadd _ NInf = NInf"

definition fsub :: "f64 \<Rightarrow> f64 \<Rightarrow> f64" where
  "fsub x y = fadd x (fneg y)"

fun fmul :: "f64 \<Rightarrow> f64 \<Rightarrow> f64" where
  "fmul (Fin a) (Fin b) = Fin (a * b)"
| "fmul NaN _ = NaN"
| "fmul _ NaN = NaN"
| "fmul (Fin a) PInf = (if a = 0 then NaN else if 0 < a then PInf else NInf)"
| "fmul (Fin a) NInf = (if a = 0 then NaN else if 0 < a then NInf else PInf)"
| "fmul PInf (Fin b) = (if b = 0 then NaN else if 0 < b then PInf else NInf)"
| "fmul NInf (Fin b) = (if b = 0 then NaN else if 0 < b then NInf else PInf)"
| "fmul PInf PInf = PInf"
| "fmul NInf NInf = PInf"
| "fmul PInf NInf = NInf"
| "fmul NInf PInf = NInf"

fun fdiv :: "f64 \<Rightarrow> f64 \<Rightarrow> f64" where
  "fdiv (Fin a) (Fin b) =
     (if b \<noteq> 0 then Fin (a / b) else if a = 0 then NaN else if 0 < a then PInf else NInf)"
| "fdiv NaN _ = NaN"
| "fdiv _ NaN = NaN"
| "fdiv (Fin a) PInf = Fin 0"
| "fdiv (Fin a) NInf = Fin 0"
| "fdiv PInf (Fin b) = (if 0 \<le> b then PInf else NInf)"
| "fdiv NInf (Fin b) = (if 0 \<le> b then NInf else PInf)"
| "fdiv PInf PInf = NaN"
| "fdiv PInf NInf = NaN"
| "fdiv NInf PInf = NaN"
| "fdiv NInf NInf = NaN"

text \<open>
  \<open>fexp\<close> is \<open>math.Exp\<close>. The library returns \<open>+Inf\<close> for an argument above its
  constant \<open>Overflow\<close> and 0 for an argument below its constant \<open>Underflow\<close>.
\<close>

definition Overflow :: real where
  "Overflow = 709.782712893383973096"

definition Underflow :: real where
  "Underflow = - 745.133219101941108420"

fun fexp :: "f64 \<Rightarrow> f64" where
  "fexp (Fin a) =
     (if a > Overflow then PInf else if a < Underflow then Fin 0 else Fin (exp a))"
| "fexp PInf = PInf"
| "fexp NInf = Fin 0"
| "fexp NaN = NaN"

text \<open>
  \<open>fgt x y\<close> is Go's \<open>x > y\<close>, \<open>fle x y\<close> is \<open>x <= y\<close> and \<open>fne x y\<close> is
  \<open>x != y\<close>: a comparison with NaN is false, and NaN is unequal to everything.
\<close>

fun fgt :: "f64 \<Rightarrow> f64 \<Rightarrow> bool" where
  "fgt (Fin a) (Fin b) = (b < a)"
| "fgt NaN _ = False"
| "fgt _ NaN = False"
| "fgt PInf PInf = False"
| "fgt PInf _ = True"
| "fgt _ PInf = False"
| "fgt NInf _ = False"
| "fgt _ NInf = True"

fun fle :: "f64 \<Rightarrow> f64 \<Rightarrow> bool" where
  "fle (Fin a) (Fin b) = (a \<le> b)"
| "fle NaN _ = False"
| "fle _ NaN = False"
| "fle NInf _ = True"
| "fle _ PInf = True"
| "fle PInf _ = False"
| "fle _ NInf = False"

definition fne :: "f64 \<Rightarrow> f64 \<Rightarrow> bool" where
  "fne x y = (x = NaN \<or> y = NaN \<or> x \<noteq> y)"

definition isNaN :: "f64 \<Rightarrow> bool" where
  "isNaN x = (x = NaN)"

section \<open>emergency/transaction.go\<close>

record EmergencyTransaction =
  tx_ID :: string
  VehicleID :: string
  Data :: "nat list"
  tx_Timestamp :: Time
  ProductTime :: Time
  DeadlineTime :: Time
  ArrivalTime :: Time
  Priority :: int
  tx_UrgencyDegree :: real
  Theta :: int

record UrgencyConfig =
  Omega :: real

text \<open>
  \<open>CalculateUrgencyDegree\<close>. \<open>Tc_of\<close>, \<open>TrMinusTu_of\<close> and \<open>E_of\<close> are its locals
  \<open>Tc\<close>, \<open>TrMinusTu\<close> and \<open>E\<close>, each as a function of the transaction; the two
  durations are finite numbers of seconds. \<open>UrgencyDegree_of\<close> is the value that the
  function assigns to \<open>tx.UrgencyDegree\<close>: the product can be infinite, and it is NaN
  when one factor is 0 and the other \<open>+Inf\<close>. The transaction record holds a finite
  urgency, so \<open>CalculateUrgencyDegree\<close> returns the updated record when the value is
  finite and \<open>None\<close> when it is not.
\<close>

definition Tc_of :: "EmergencyTransaction \<Rightarrow> real" where
  "Tc_of tx = Seconds (Sub (DeadlineTime tx) (ArrivalTime tx))"

definition TrMinusTu_of :: "EmergencyTransaction \<Rightarrow> real" where
  "TrMinusTu_of tx = Seconds (Sub (ArrivalTime tx) (ProductTime tx))"

definition E_of :: "EmergencyTransaction \<Rightarrow> f64" where
  "E_of tx =
     (if TrMinusTu_of tx > 0 then fexp (fdiv (fneg (Fin (Tc_of tx))) (Fin (TrMinusTu_of tx)))
      else Fin 0.1)"

definition UrgencyDegree_of :: "UrgencyConfig \<Rightarrow> EmergencyTransaction \<Rightarrow> f64" where
  "UrgencyDegree_of ucfg tx =
     (let theta = Fin (real_of_int (Theta tx))
      in fmul (E_of tx) (fexp (fmul (Fin (Omega ucfg)) theta)))"

definition CalculateUrgencyDegree ::
  "UrgencyConfig \<Rightarrow> EmergencyTransaction \<Rightarrow> EmergencyTransaction option" where
  "CalculateUrgencyDegree ucfg tx =
     (case UrgencyDegree_of ucfg tx of
        Fin u \<Rightarrow> Some (tx\<lparr>tx_UrgencyDegree := u\<rparr>)
      | _ \<Rightarrow> None)"

definition NewEmergencyTransaction ::
  "Time \<Rightarrow> string \<Rightarrow> string \<Rightarrow> nat list \<Rightarrow> Time \<Rightarrow> Time \<Rightarrow> Time \<Rightarrow> int \<Rightarrow> UrgencyConfig
     \<Rightarrow> EmergencyTransaction option" where
  "NewEmergencyTransaction clock txid vehicleID data productTime deadlineTime arrivalTime theta ucfg =
     CalculateUrgencyDegree ucfg
       \<lparr>tx_ID = txid, VehicleID = vehicleID, Data = data, tx_Timestamp = clock,
        ProductTime = productTime, DeadlineTime = deadlineTime, ArrivalTime = arrivalTime,
        Priority = 0, tx_UrgencyDegree = 0, Theta = theta\<rparr>"

text \<open>The pool is the slice \<open>pool.transactions\<close>, in insertion order.\<close>

type_synonym TransactionPool = "EmergencyTransaction list"

definition NewTransactionPool :: TransactionPool where
  "NewTransactionPool = []"

definition AddTransaction :: "TransactionPool \<Rightarrow> EmergencyTransaction \<Rightarrow> TransactionPool" where
  "AddTransaction pool tx = pool @ [tx]"

definition Size :: "TransactionPool \<Rightarrow> int" where
  "Size pool = int (length pool)"

text \<open>
  \<open>RemoveTransactions\<close>: the map \<open>toRemove\<close> is a \<open>map[string]bool\<close>, read with
  the zero value \<open>false\<close> at a missing key.
\<close>

definition toRemove :: "EmergencyTransaction list \<Rightarrow> string \<Rightarrow> bool" where
  "toRemove txs = foldl (\<lambda>m tx. m(tx_ID tx := True)) (\<lambda>_. False) txs"

definition RemoveTransactions ::
  "TransactionPool \<Rightarrow> EmergencyTransaction list \<Rightarrow> TransactionPool" where
  "RemoveTransactions pool txs = filter (\<lambda>tx. \<not> toRemove txs (tx_ID tx)) pool"

text \<open>
  The bubble sort of \<open>GetTopKTransactions\<close>. The inner loop runs while
  \<open>j < len(sorted)-i-1\<close>, written here as \<open>j + i + 1 < length srtd\<close>; the outer
  loop runs while \<open>i < len(sorted)-1\<close>.
\<close>

definition swap_step :: "EmergencyTransaction list \<Rightarrow> nat \<Rightarrow> EmergencyTransaction list" where
  "swap_step srtd j =
     (if tx_UrgencyDegree (srtd ! j) < tx_UrgencyDegree (srtd ! (j + 1))
      then srtd[j := srtd ! (j + 1), j + 1 := srtd ! j]
      else srtd)"

function inner_loop ::
  "EmergencyTransaction list \<Rightarrow> nat \<Rightarrow> nat \<Rightarrow> EmergencyTransaction list" where
  "inner_loop srtd i j =
     (if j + i + 1 < length srtd then inner_loop (swap_step srtd j) i (j + 1) else srtd)"
  by pat_completeness auto
termination
  by (relation "measure (\<lambda>(srtd, i, j). length srtd - (j + i))")
     (auto simp: swap_step_def)

declare inner_loop.simps [simp del]

lemma length_swap_step: "length (swap_step srtd j) = length srtd"
  by (simp add: swap_step_def)

lemma length_inner_loop: "length (inner_loop srtd i j) = length srtd"
proof (induction srtd i j rule: inner_loop.induct)
  case (1 srtd i j)
  show ?case
  proof (cases "j + i + 1 < length srtd")
    case True
    then have "inner_loop srtd i j = inner_loop (swap_step srtd j) i (j + 1)"
      by (subst inner_loop.simps) simp
    then show ?thesis
      using "1.IH" [OF True] by (simp add: length_swap_step)
  next
    case False
    then show ?thesis by (subst inner_loop.simps) simp
  qed
qed

function outer_loop :: "EmergencyTransaction list \<Rightarrow> nat \<Rightarrow> EmergencyTransaction list" where
  "outer_loop srtd i =
     (if i + 1 < length srtd then outer_loop (inner_loop srtd i 0) (i + 1) else srtd)"
  by pat_completeness auto
termination
  by (relation "measure (\<lambda>(srtd, i). length srtd - i)")
     (auto simp: length_inner_loop)

declare outer_loop.simps [simp del]

definition GetTopKTransactions ::
  "TransactionPool \<Rightarrow> int \<Rightarrow> panic + (EmergencyTransaction list \<times> TransactionPool)" where
  "GetTopKTransactions pool k =
     (if length pool = 0 then Inr ([], pool)
      else
        let srtd = outer_loop pool 0;
            k' = (if k > int (length srtd) then int (length srtd) else k)
        in if k' < 0 then Inl SliceBoundsOutOfRange
           else let result = take (nat k') srtd
                in Inr (result, RemoveTransactions pool result))"

section \<open>emergency/block.go\<close>

text \<open>
  The block hash goes through three library functions that are not part of the
  repository: SHA-256 with hex encoding, \<open>json.Marshal\<close> of the four header fields, and
  \<open>Time.Format(time.RFC3339Nano)\<close>. The total urgency of a block is added up with the
  \<open>float64\<close> addition of the machine, which rounds, and \<open>VerifyBlock\<close> tests the
  rounded sum for equality. The three functions and the addition (\<open>f64_add\<close>, on finite
  values) are parameters of the model, collected in \<open>Lib\<close>; nothing is assumed about them.
\<close>

record Lib =
  sha256_hex :: "string \<Rightarrow> string"
  json_Marshal :: "int \<Rightarrow> string \<Rightarrow> string \<Rightarrow> string \<Rightarrow> string"
  Format_RFC3339Nano :: "Time \<Rightarrow> string"
  f64_add :: "real \<Rightarrow> real \<Rightarrow> real"

record EmergencyBlock =
  Index :: int
  blk_Timestamp :: Time
  PrevHash :: string
  Hash :: string
  MerkleRoot :: string
  Signature :: string
  ValidatorIDs :: "string list"
  Transactions :: "EmergencyTransaction list"
  TotalUrgency :: real

definition CalculateMerkleRoot :: "Lib \<Rightarrow> EmergencyBlock \<Rightarrow> string" where
  "CalculateMerkleRoot lib b =
     (if length (Transactions b) = 0 then []
      else let txIDs = foldl (\<lambda>txIDs tx. txIDs @ tx_ID tx) [] (Transactions b)
           in sha256_hex lib txIDs)"

definition CalculateTotalUrgency :: "Lib \<Rightarrow> EmergencyBlock \<Rightarrow> real" where
  "CalculateTotalUrgency lib b =
     foldl (\<lambda>total tx. f64_add lib total (tx_UrgencyDegree tx)) 0 (Transactions b)"

definition CalculateHash :: "Lib \<Rightarrow> EmergencyBlock \<Rightarrow> string" where
  "CalculateHash lib b =
     (let jsonData = json_Marshal lib (Index b) (Format_RFC3339Nano lib (blk_Timestamp b))
                       (PrevHash b) (MerkleRoot b)
      in sha256_hex lib jsonData)"

definition NewEmergencyBlock ::
  "Lib \<Rightarrow> Time \<Rightarrow> int \<Rightarrow> string \<Rightarrow> EmergencyTransaction list \<Rightarrow> string list \<Rightarrow> EmergencyBlock" where
  "NewEmergencyBlock lib clock index prevHash transactions validatorIDs =
     (let block = \<lparr>Index = index, blk_Timestamp = clock, PrevHash = prevHash, Hash = [],
                    MerkleRoot = [], Signature = [], ValidatorIDs = validatorIDs,
                    Transactions = transactions, TotalUrgency = 0\<rparr>;
          block = block\<lparr>MerkleRoot := CalculateMerkleRoot lib block\<rparr>;
          block = block\<lparr>TotalUrgency := CalculateTotalUrgency lib block\<rparr>;
          block = block\<lparr>Hash := CalculateHash lib block\<rparr>
      in block)"

record EmergencyBlockchain =
  Chain :: "EmergencyBlock list"
  TxPool :: TransactionPool
  UrgencyCfg :: UrgencyConfig
  BlockSize :: int
  BlockPeriod :: int

definition genesisBlock :: "Time \<Rightarrow> EmergencyBlock" where
  "genesisBlock clock =
     \<lparr>Index = 0, blk_Timestamp = clock, PrevHash = ''0'', Hash = ''genesis'',
      MerkleRoot = [], Signature = [], ValidatorIDs = [], Transactions = [],
      TotalUrgency = 0\<rparr>"

definition NewEmergencyBlockchain ::
  "Time \<Rightarrow> UrgencyConfig \<Rightarrow> int \<Rightarrow> int \<Rightarrow> EmergencyBlockchain" where
  "NewEmergencyBlockchain clock urgencyCfg blockSize blockPeriod =
     \<lparr>Chain = [genesisBlock clock], TxPool = NewTransactionPool, UrgencyCfg = urgencyCfg,
      BlockSize = blockSize, BlockPeriod = blockPeriod\<rparr>"

definition GetLatestBlock :: "EmergencyBlockchain \<Rightarrow> EmergencyBlock option" where
  "GetLatestBlock ebc =
     (if length (Chain ebc) = 0 then None else Some (Chain ebc ! (length (Chain ebc) - 1)))"

definition AddBlock :: "EmergencyBlockchain \<Rightarrow> EmergencyBlock \<Rightarrow> EmergencyBlockchain" where
  "AddBlock ebc block = ebc\<lparr>Chain := Chain ebc @ [block]\<rparr>"

definition GetChainLength :: "EmergencyBlockchain \<Rightarrow> int" where
  "GetChainLength ebc = int (length (Chain ebc))"

text \<open>
  \<open>VerifyBlock\<close> reads \<open>latestBlock.Index\<close> without a nil check: on an empty chain
  \<open>GetLatestBlock\<close> returns nil and the read panics.
\<close>

definition VerifyBlock :: "Lib \<Rightarrow> EmergencyBlockchain \<Rightarrow> EmergencyBlock \<Rightarrow> panic + bool" where
  "VerifyBlock lib ebc block =
     (case GetLatestBlock ebc of
        None \<Rightarrow> Inl NilPointerDereference
      | Some latestBlock \<Rightarrow>
          if Index block \<noteq> int64 (Index latestBlock + 1) then Inr False
          else if PrevHash block \<noteq> Hash latestBlock then Inr False
          else if MerkleRoot block \<noteq> CalculateMerkleRoot lib block then Inr False
          else if Hash block \<noteq> CalculateHash lib block then Inr False
          else if TotalUrgency block \<noteq> CalculateTotalUrgency lib block then Inr False
          else Inr True)"

section \<open>config/config.go and reputation/reputation.go\<close>

text \<open>
  The configuration is read from JSON, which has no encoding for an infinity or a NaN:
  its fields are reals. So are the trajectory samples and the urgency of an interaction.
\<close>

record Config =
  Rho1 :: real
  Rho2 :: real
  Rho3 :: real
  Eta :: real
  Epsilon :: real
  Tau1 :: real
  Tau2 :: real
  Tau3 :: real
  Mu :: real
  Gamma :: real

record Vector =
  Speed :: real
  Direction :: real
  Acceleration :: real

text \<open>
  \<open>TransactionType\<close> is an \<open>int\<close> with two named values; \<open>OtherTransactionType\<close>
  stands for every other value, which the \<open>switch\<close> sends to its default branch.
\<close>

datatype TransactionType = NormalTransaction | EmergencyTransaction | OtherTransactionType

record Interaction =
  int_From :: string
  To :: string
  PosEvents :: int
  NegEvents :: int
  int_Timestamp :: Time
  TrajUser :: "Vector list"
  TrajProvider :: "Vector list"
  TxType :: TransactionType
  int_UrgencyDegree :: real

record SubjectiveOpinion =
  op_T :: f64
  op_D :: f64
  op_I :: f64

record DirectOpinion =
  Opinion :: SubjectiveOpinion
  Weight :: f64

definition InitialReputation :: real where
  "InitialReputation = 0.5"

definition NormalTxWeight :: real where
  "NormalTxWeight = 1.0"

definition EmergencyTxBaseWeight :: real where
  "EmergencyTxBaseWeight = 3.0"

definition UrgencyImpactFactor :: real where
  "UrgencyImpactFactor = 0.8"

definition MaxWeightMultiplier :: real where
  "MaxWeightMultiplier = 8.0"

record ReputationManager =
  cfg :: Config
  interactions :: "Interaction list"

definition NewReputationManager :: "Config \<Rightarrow> ReputationManager" where
  "NewReputationManager c = \<lparr>cfg = c, interactions = []\<rparr>"

definition AddInteraction :: "ReputationManager \<Rightarrow> Interaction \<Rightarrow> ReputationManager" where
  "AddInteraction rm intr = rm\<lparr>interactions := interactions rm @ [intr]\<rparr>"

definition CalculateTransactionWeight :: "TransactionType \<Rightarrow> real \<Rightarrow> real" where
  "CalculateTransactionWeight txType urgencyDegree =
     (case txType of
        NormalTransaction \<Rightarrow> NormalTxWeight
      | EmergencyTransaction \<Rightarrow>
          (let weight = EmergencyTxBaseWeight * (1.0 + UrgencyImpactFactor * urgencyDegree)
           in if weight > MaxWeightMultiplier then MaxWeightMultiplier else weight)
      | OtherTransactionType \<Rightarrow> NormalTxWeight)"

text \<open>
  A Go map is an association list with distinct keys, in insertion order. Reading a
  nested map at a missing outer key gives the nil map, which reads as empty
  (\<open>inner_of\<close>). A \<open>range\<close> loop that stores one entry per key of the map it ranges over
  is a \<open>map\<close> over the list, and a sum accumulated in such a loop is a fold.
\<close>

definition inner_of :: "('a \<times> ('b \<times> 'c) list) list \<Rightarrow> 'a \<Rightarrow> ('b \<times> 'c) list" where
  "inner_of m k = (case map_of m k of None \<Rightarrow> [] | Some im \<Rightarrow> im)"

definition fsum :: "f64 list \<Rightarrow> f64" where
  "fsum xs = foldl fadd (Fin 0) xs"

text \<open>\<open>aggregateByPair\<close>: the \<open>else\<close> branch merges into the existing record.\<close>

definition merge_interaction :: "Interaction \<Rightarrow> Interaction \<Rightarrow> Interaction" where
  "merge_interaction exist intr =
     (let exist = exist\<lparr>PosEvents := int64 (PosEvents exist + PosEvents intr)\<rparr>;
          exist = exist\<lparr>NegEvents := int64 (NegEvents exist + NegEvents intr)\<rparr>
      in if After (int_Timestamp intr) (int_Timestamp exist)
         then exist\<lparr>int_Timestamp := int_Timestamp intr, TrajUser := TrajUser intr,
                    TrajProvider := TrajProvider intr\<rparr>
         else exist)"

definition aggregate_step ::
  "(string \<times> (string \<times> Interaction) list) list \<Rightarrow> Interaction
     \<Rightarrow> (string \<times> (string \<times> Interaction) list) list" where
  "aggregate_step agg intr =
     (let agg = (if map_of agg (To intr) = None then AList.update (To intr) [] agg else agg);
          fromMap = inner_of agg (To intr)
      in case map_of fromMap (int_From intr) of
           None \<Rightarrow> AList.update (To intr) (AList.update (int_From intr) intr fromMap) agg
         | Some exist \<Rightarrow>
             AList.update (To intr)
               (AList.update (int_From intr) (merge_interaction exist intr) fromMap) agg)"

definition aggregateByPair ::
  "ReputationManager \<Rightarrow> (string \<times> (string \<times> Interaction) list) list" where
  "aggregateByPair rm = foldl aggregate_step [] (interactions rm)"

text \<open>
  \<open>cosineSimilarity\<close> and \<open>computeTrajectorySimilarity\<close>. The only caller of
  \<open>cosineSimilarity\<close> passes two slices of the same length \<open>n\<close>, so the read \<open>b[i]\<close>
  inside the loop over \<open>a\<close> is in range; so are \<open>user[i]\<close> and \<open>prov[i]\<close> for \<open>i < n\<close>.
\<close>

definition cosineSimilarity :: "real list \<Rightarrow> real list \<Rightarrow> real" where
  "cosineSimilarity a b =
     (let num = foldl (\<lambda>num i. num + a ! i * b ! i) 0 [0..<length a];
          sa = foldl (\<lambda>sa i. sa + a ! i * a ! i) 0 [0..<length a];
          sb = foldl (\<lambda>sb v. sb + v * v) 0 b
      in if sa = 0 \<or> sb = 0 then 0 else num / (sqrt sa * sqrt sb))"

definition computeTrajectorySimilarity ::
  "ReputationManager \<Rightarrow> Vector list \<Rightarrow> Vector list \<Rightarrow> real" where
  "computeTrajectorySimilarity rm user prov =
     (let n = (if length prov < length user then length prov else length user);
          uspd = map (\<lambda>i. Speed (user ! i)) [0..<n];
          vspd = map (\<lambda>i. Speed (prov ! i)) [0..<n];
          udir = map (\<lambda>i. Direction (user ! i)) [0..<n];
          vdir = map (\<lambda>i. Direction (prov ! i)) [0..<n];
          uacc = map (\<lambda>i. Acceleration (user ! i)) [0..<n];
          vacc = map (\<lambda>i. Acceleration (prov ! i)) [0..<n];
          sspd = cosineSimilarity uspd vspd;
          sdir = cosineSimilarity udir vdir;
          sacc = cosineSimilarity uacc vacc
      in Tau1 (cfg rm) * sspd + Tau2 (cfg rm) * sdir + Tau3 (cfg rm) * sacc)"

text \<open>
  \<open>computeDirectOpinions\<close>, for one subject \<open>to\<close> with its evaluators \<open>fromMap\<close>.
  \<open>math.Pow(delta, -Epsilon)\<close> is called with a positive finite \<open>delta\<close> only, where
  it is \<open>delta powr (- Epsilon)\<close>.
\<close>

definition eventCount :: "Interaction \<Rightarrow> real" where
  "eventCount intr = real_of_int (int64 (PosEvents intr + NegEvents intr))"

definition avgCnt_of :: "(string \<times> Interaction) list \<Rightarrow> real" where
  "avgCnt_of fromMap =
     (let sumCnt = foldl (\<lambda>sumCnt (from, intr). sumCnt + eventCount intr) 0 fromMap
      in if length fromMap > 0 then sumCnt / real (length fromMap) else 1.0)"

definition TIM_of :: "Config \<Rightarrow> Time \<Rightarrow> Interaction \<Rightarrow> real" where
  "TIM_of c now intr =
     (let delta = Seconds (Sub now (int_Timestamp intr))
      in if delta \<le> 0 then Eta c else Eta c * (delta powr (- Epsilon c)))"

definition weight_of :: "ReputationManager \<Rightarrow> real \<Rightarrow> Time \<Rightarrow> Interaction \<Rightarrow> f64" where
  "weight_of rm avgCnt now intr =
     (let Fi = fdiv (Fin (eventCount intr)) (Fin avgCnt);
          TIM = TIM_of (cfg rm) now intr;
          sim = computeTrajectorySimilarity rm (TrajUser intr) (TrajProvider intr);
          baseWeight = fadd (fadd (fmul (Fin (Rho1 (cfg rm))) Fi) (Fin (Rho2 (cfg rm) * TIM)))
                            (Fin (Rho3 (cfg rm) * sim));
          txWeight = CalculateTransactionWeight (TxType intr) (int_UrgencyDegree intr)
      in fmul baseWeight (Fin txWeight))"

definition Ii_of :: "Interaction \<Rightarrow> f64" where
  "Ii_of intr = fdiv (Fin 2.0) (Fin (2.0 + eventCount intr))"

definition tmp_opinion :: "ReputationManager \<Rightarrow> real \<Rightarrow> Time \<Rightarrow> Interaction \<Rightarrow> DirectOpinion" where
  "tmp_opinion rm avgCnt now intr =
     \<lparr>Opinion = \<lparr>op_T = Fin 0, op_D = Fin 0, op_I = Ii_of intr\<rparr>,
      Weight = weight_of rm avgCnt now intr\<rparr>"

definition theta_of :: "Config \<Rightarrow> f64 \<Rightarrow> f64 \<Rightarrow> f64" where
  "theta_of c errNum errDen =
     (if fne errDen (Fin 0) then fdiv (Fin (Mu c)) (fadd (Fin 1) (fexp (fdiv errNum errDen)))
      else Fin 0.0)"

definition fill_opinion :: "f64 \<Rightarrow> Interaction \<Rightarrow> DirectOpinion \<Rightarrow> DirectOpinion" where
  "fill_opinion theta intr d =
     (let alpha = fmul (fsub (Fin 1) theta) (Fin (real_of_int (PosEvents intr)));
          beta = fmul theta (Fin (real_of_int (NegEvents intr)));
          sumEvt = fadd alpha beta
      in if fgt sumEvt (Fin 0)
         then d\<lparr>Opinion := (Opinion d)
                  \<lparr>op_T := fdiv (fmul (fsub (Fin 1) (op_I (Opinion d))) alpha) sumEvt,
                   op_D := fdiv (fmul (fsub (Fin 1) (op_I (Opinion d))) beta) sumEvt\<rparr>\<rparr>
         else d)"

definition direct_for ::
  "ReputationManager \<Rightarrow> Time \<Rightarrow> (string \<times> Interaction) list \<Rightarrow> (string \<times> DirectOpinion) list" where
  "direct_for rm now fromMap =
     (let avgCnt = avgCnt_of fromMap;
          errNum = fsum (map (\<lambda>(from, intr).
                      fmul (weight_of rm avgCnt now intr) (Fin (real_of_int (NegEvents intr))))
                    fromMap);
          errDen = fsum (map (\<lambda>(from, intr). weight_of rm avgCnt now intr) fromMap);
          theta = theta_of (cfg rm) errNum errDen
      in map (\<lambda>(from, intr). (from, fill_opinion theta intr (tmp_opinion rm avgCnt now intr)))
           fromMap)"

definition computeDirectOpinions ::
  "ReputationManager \<Rightarrow> (string \<times> (string \<times> Interaction) list) list \<Rightarrow> Time
     \<Rightarrow> (string \<times> (string \<times> DirectOpinion) list) list" where
  "computeDirectOpinions rm agg now =
     map (\<lambda>(to, fromMap). (to, direct_for rm now fromMap)) agg"

text \<open>
  \<open>computeIndirectOpinions\<close>. The closure \<open>dfs\<close> appends every path it finds to
  \<open>paths\<close>; here it returns them. \<open>direct[toNode][from]\<close> reads the zero value at a
  missing key (\<open>get_direct\<close>).
\<close>

definition hopCount :: nat where
  "hopCount = 2"

function dfs ::
  "(string \<times> (string \<times> DirectOpinion) list) list \<Rightarrow> string \<Rightarrow> string list \<Rightarrow> string list list" where
  "dfs direct target path =
     (if length path - 1 > hopCount then []
      else if last path = target \<and> length path > 1 then [path]
      else concat (map (\<lambda>next. if next \<in> set path then [] else dfs direct target (path @ [next]))
                     (map fst (inner_of direct (last path)))))"
  by pat_completeness auto
termination
  by (relation "measure (\<lambda>(direct, target, path). hopCount + 2 - length path)")
     (auto simp: hopCount_def)

declare dfs.simps [simp del]

definition zeroOpinion :: SubjectiveOpinion where
  "zeroOpinion = \<lparr>op_T = Fin 0, op_D = Fin 0, op_I = Fin 0\<rparr>"

definition zeroDirectOpinion :: DirectOpinion where
  "zeroDirectOpinion = \<lparr>Opinion = zeroOpinion, Weight = Fin 0\<rparr>"

definition get_direct ::
  "(string \<times> (string \<times> DirectOpinion) list) list \<Rightarrow> string \<Rightarrow> string \<Rightarrow> DirectOpinion" where
  "get_direct direct toNode from =
     (case map_of (inner_of direct toNode) from of None \<Rightarrow> zeroDirectOpinion | Some d \<Rightarrow> d)"

definition discount_path ::
  "(string \<times> (string \<times> DirectOpinion) list) list \<Rightarrow> string list \<Rightarrow> f64 \<times> f64 \<times> f64 \<times> f64" where
  "discount_path direct path =
     foldl (\<lambda>(T, D, I, w) i.
              let from = path ! i;
                  toNode = path ! (i + 1);
                  d = get_direct direct toNode from;
                  Tnew = fmul T (op_T (Opinion d));
                  Dnew = fmul T (op_D (Opinion d));
                  Inew = fadd (fadd D I) (fmul T (op_I (Opinion d)))
              in (Tnew, Dnew, Inew, fmul w (Weight d)))
       (Fin 1.0, Fin 0.0, Fin 0.0, Fin 1.0) [0..<length path - 1]"

definition accumulate_paths ::
  "(string \<times> (string \<times> DirectOpinion) list) list \<Rightarrow> string list list \<Rightarrow> SubjectiveOpinion \<times> f64" where
  "accumulate_paths direct paths =
     foldl (\<lambda>(agg, sumW) path.
              case discount_path direct path of (T, D, I, w) \<Rightarrow>
                (agg\<lparr>op_T := fadd (op_T agg) (fmul T w),
                     op_D := fadd (op_D agg) (fmul D w),
                     op_I := fadd (op_I agg) (fmul I w)\<rparr>,
                 fadd sumW w))
       (zeroOpinion, Fin 0) paths"

text \<open>
  The entry \<open>indirect[target][source]\<close> exists exactly when a path was found: it is
  written inside the loop over \<open>paths\<close>.
\<close>

definition indirect_entry ::
  "(string \<times> (string \<times> DirectOpinion) list) list \<Rightarrow> string \<Rightarrow> string \<Rightarrow> SubjectiveOpinion option" where
  "indirect_entry direct target source =
     (let paths = dfs direct target [source]
      in if paths = [] then None
         else case accumulate_paths direct paths of (agg, sumW) \<Rightarrow>
           Some (if fgt sumW (Fin 0)
                 then \<lparr>op_T = fdiv (op_T agg) sumW, op_D = fdiv (op_D agg) sumW,
                       op_I = fdiv (op_I agg) sumW\<rparr>
                 else agg))"

definition indirect_for ::
  "(string \<times> (string \<times> DirectOpinion) list) list \<Rightarrow> string \<Rightarrow> (string \<times> SubjectiveOpinion) list" where
  "indirect_for direct target =
     concat (map (\<lambda>(source, _).
                    if source = target then []
                    else case indirect_entry direct target source of
                           None \<Rightarrow> [] | Some v \<Rightarrow> [(source, v)])
               direct)"

definition computeIndirectOpinions ::
  "(string \<times> (string \<times> DirectOpinion) list) list
     \<Rightarrow> (string \<times> (string \<times> SubjectiveOpinion) list) list" where
  "computeIndirectOpinions direct = map (\<lambda>(target, _). (target, indirect_for direct target)) direct"

text \<open>\<open>fuseOpinions\<close>. The division by \<open>k\<close> is not guarded.\<close>

definition fuseOpinions ::
  "(string \<times> DirectOpinion) list \<Rightarrow> (string \<times> SubjectiveOpinion) list \<Rightarrow> SubjectiveOpinion" where
  "fuseOpinions dir ind =
     (let sumW = fsum (map (\<lambda>(from, d). Weight d) dir);
          sumTdir = fsum (map (\<lambda>(from, d). fmul (op_T (Opinion d)) (Weight d)) dir);
          sumDdir = fsum (map (\<lambda>(from, d). fmul (op_D (Opinion d)) (Weight d)) dir);
          sumIdir = fsum (map (\<lambda>(from, d). fmul (op_I (Opinion d)) (Weight d)) dir);
          Tdir = (if fgt sumW (Fin 0) then fdiv sumTdir sumW else Fin 0.0);
          Ddir = (if fgt sumW (Fin 0) then fdiv sumDdir sumW else Fin 0.0);
          Idir = (if fgt sumW (Fin 0) then fdiv sumIdir sumW else Fin 0.0)
      in if length ind = 0 then \<lparr>op_T = Tdir, op_D = Ddir, op_I = Idir\<rparr>
         else
           let sumTind = fsum (map (\<lambda>(source, opin). op_T opin) ind);
               sumDind = fsum (map (\<lambda>(source, opin). op_D opin) ind);
               sumIind = fsum (map (\<lambda>(source, opin). op_I opin) ind);
               n = Fin (real (length ind));
               Tind = (if length ind > 0 then fdiv sumTind n else Fin 0.0);
               Dind = (if length ind > 0 then fdiv sumDind n else Fin 0.0);
               Iind = (if length ind > 0 then fdiv sumIind n else Fin 0.0);
               k = fadd (fadd (fmul Idir Iind) (fmul Tind Idir)) (fmul Dind Idir)
           in \<lparr>op_T = fdiv (fadd (fmul Tdir Iind) (fmul Tind Idir)) k,
               op_D = fdiv (fadd (fmul Ddir Iind) (fmul Dind Idir)) k,
               op_I = fdiv (fmul Idir Iind) k\<rparr>)"

definition ComputeReputation :: "ReputationManager \<Rightarrow> string \<Rightarrow> Time \<Rightarrow> f64" where
  "ComputeReputation rm target now =
     (let agg = aggregateByPair rm
      in if map_of agg target = None then Fin InitialReputation
         else
           let direct = computeDirectOpinions rm agg now;
               indirect = computeIndirectOpinions direct;
               final = fuseOpinions (inner_of direct target) (inner_of indirect target)
           in fadd (op_T final) (fmul (Fin (Gamma (cfg rm))) (op_I final)))"

section \<open>emergency/validator.go\<close>

record Validator =
  val_ID :: string
  Reputation :: f64

record ValidatorGroup =
  Validators :: "Validator list"
  GroupSize :: int
  ActivePeriod :: int
  CurrentRound :: int
  CreatedAt :: Time

definition NewValidatorGroup :: "Time \<Rightarrow> int \<Rightarrow> int \<Rightarrow> ValidatorGroup" where
  "NewValidatorGroup clock groupSize activePeriod =
     \<lparr>Validators = [], GroupSize = groupSize, ActivePeriod = activePeriod, CurrentRound = 0,
      CreatedAt = clock\<rparr>"

text \<open>
  \<open>SelectValidators\<close>. \<open>reputationManagers\<close> is a map from node id to a manager
  pointer; a missing or nil entry is \<open>None\<close>. The comparison handed to
  \<open>sort.Slice\<close> is \<open>byReputation\<close>. \<open>sort.Slice\<close> belongs to the Go library and is
  a parameter of the model (\<open>sort_Slice\<close>).
\<close>

definition nodeReputation_of ::
  "string list \<Rightarrow> (string \<Rightarrow> ReputationManager option) \<Rightarrow> Time \<Rightarrow> Validator list" where
  "nodeReputation_of nodeIDs reputationManagers now =
     foldl (\<lambda>nodeReputation nodeID.
              case reputationManagers nodeID of
                None \<Rightarrow> nodeReputation
              | Some rm \<Rightarrow>
                  nodeReputation @ [\<lparr>val_ID = nodeID, Reputation = ComputeReputation rm nodeID now\<rparr>])
       [] nodeIDs"

definition byReputation :: "Validator \<Rightarrow> Validator \<Rightarrow> bool" where
  "byReputation a b = fgt (Reputation a) (Reputation b)"

definition SelectValidators ::
  "((Validator \<Rightarrow> Validator \<Rightarrow> bool) \<Rightarrow> Validator list \<Rightarrow> Validator list)
     \<Rightarrow> ValidatorGroup \<Rightarrow> string list \<Rightarrow> (string \<Rightarrow> ReputationManager option) \<Rightarrow> Time
     \<Rightarrow> panic + ValidatorGroup" where
  "SelectValidators sort_Slice vg nodeIDs reputationManagers now =
     (let nodeReputation = sort_Slice byReputation (nodeReputation_of nodeIDs reputationManagers now)
      in if int (length nodeReputation) < GroupSize vg
         then Inr (vg\<lparr>Validators := nodeReputation, CreatedAt := now, CurrentRound := 0\<rparr>)
         else if GroupSize vg < 0 then Inl SliceBoundsOutOfRange
         else Inr (vg\<lparr>Validators := take (nat (GroupSize vg)) nodeReputation,
                       CreatedAt := now, CurrentRound := 0\<rparr>))"

definition IsActive :: "ValidatorGroup \<Rightarrow> bool" where
  "IsActive vg = (CurrentRound vg < ActivePeriod vg)"

definition IncrementRound :: "ValidatorGroup \<Rightarrow> ValidatorGroup" where
  "IncrementRound vg = vg\<lparr>CurrentRound := int64 (CurrentRound vg + 1)\<rparr>"

definition NeedRefresh :: "ValidatorGroup \<Rightarrow> bool" where
  "NeedRefresh vg = (\<not> IsActive vg \<or> length (Validators vg) = 0)"

definition GetValidatorIDs :: "ValidatorGroup \<Rightarrow> string list" where
  "GetValidatorIDs vg = map val_ID (Validators vg)"

definition vg_IsValidator :: "ValidatorGroup \<Rightarrow> string \<Rightarrow> bool" where
  "vg_IsValidator vg nodeID = (\<exists>v \<in> set (Validators vg). val_ID v = nodeID)"

definition GetSize :: "ValidatorGroup \<Rightarrow> int" where
  "GetSize vg = int (length (Validators vg))"

text \<open>
  The insertion sort that Go's \<open>sort.Slice\<close> runs on a slice of at most twelve
  elements (\<open>insertionSortLessFunc\<close> of the library): element \<open>i\<close> moves left while
  \<open>less\<close> holds against its left neighbour.
\<close>

function insertion_inner :: "('a \<Rightarrow> 'a \<Rightarrow> bool) \<Rightarrow> 'a list \<Rightarrow> nat \<Rightarrow> 'a list" where
  "insertion_inner lt xs j =
     (if j > 0 \<and> lt (xs ! j) (xs ! (j - 1))
      then insertion_inner lt (xs[j := xs ! (j - 1), j - 1 := xs ! j]) (j - 1)
      else xs)"
  by pat_completeness auto
termination
  by (relation "measure (\<lambda>(lt, xs, j). j)") auto

declare insertion_inner.simps [simp del]

lemma length_insertion_inner: "length (insertion_inner lt xs j) = length xs"
proof (induction lt xs j rule: insertion_inner.induct)
  case (1 lt xs j)
  show ?case
  proof (cases "j > 0 \<and> lt (xs ! j) (xs ! (j - 1))")
    case True
    then have "insertion_inner lt xs j
        = insertion_inner lt (xs[j := xs ! (j - 1), j - 1 := xs ! j]) (j - 1)"
      by (subst insertion_inner.simps) simp
    then show ?thesis
      using "1.IH" [OF True] by simp
  next
    case False
    then show ?thesis by (subst insertion_inner.simps) auto
  qed
qed

function insertion_outer :: "('a \<Rightarrow> 'a \<Rightarrow> bool) \<Rightarrow> 'a list \<Rightarrow> nat \<Rightarrow> 'a list" where
  "insertion_outer lt xs i =
     (if i < length xs then insertion_outer lt (insertion_inner lt xs i) (i + 1) else xs)"
  by pat_completeness auto
termination
  by (relation "measure (\<lambda>(lt, xs, i). length xs - i)")
     (auto simp: length_insertion_inner)

declare insertion_outer.simps [simp del]

definition insertionSortLessFunc :: "('a \<Rightarrow> 'a \<Rightarrow> bool) \<Rightarrow> 'a list \<Rightarrow> 'a list" where
  "insertionSortLessFunc lt xs = insertion_outer lt xs 1"

section \<open>emergency/node.go\<close>

text \<open>
  A node reads two fields of each peer, its id and its validator flag: \<open>Peers\<close> is the
  list of these pairs. A message handed to \<open>go peer.ReceiveMessage(msg)\<close> is an entry
  (receiver id, message) of the list of sends that a handler returns beside the new
  node state. \<open>time.Now()\<close> is the parameter \<open>clock\<close>, and \<open>rand.Float64()\<close> for the
  \<open>i\<close>-th transaction of a block is \<open>rnd i\<close>. The lock of \<open>ReceiveMessage\<close> makes a
  node handle one message at a time, which is what a function on the node state does.
\<close>

datatype MessageType = PrePrepare | Prepare | Commit | OtherMessageType

record ConsensusMessage =
  Type :: MessageType
  BlockHash :: string
  Block :: EmergencyBlock
  msg_From :: string
  msg_Timestamp :: Time

record Peer =
  peer_ID :: string
  peer_IsValidator :: bool

record EmergencyNode =
  node_ID :: string
  IsValidator :: bool
  Blockchain :: EmergencyBlockchain
  ReputationManager :: ReputationManager
  ValidatorGroup :: ValidatorGroup
  Peers :: "Peer list"
  prePrepareReceived :: "(string \<times> ConsensusMessage) list"
  prepareVotes :: "(string \<times> (string \<times> bool) list) list"
  commitVotes :: "(string \<times> (string \<times> bool) list) list"

definition NewEmergencyNode ::
  "string \<Rightarrow> EmergencyBlockchain \<Rightarrow> ReputationManager \<Rightarrow> ValidatorGroup \<Rightarrow> EmergencyNode" where
  "NewEmergencyNode nid blockchain reputationManager validatorGroup =
     \<lparr>node_ID = nid, IsValidator = False, Blockchain = blockchain,
      ReputationManager = reputationManager, ValidatorGroup = validatorGroup, Peers = [],
      prePrepareReceived = [], prepareVotes = [], commitVotes = []\<rparr>"

definition UpdateValidatorStatus :: "EmergencyNode \<Rightarrow> EmergencyNode" where
  "UpdateValidatorStatus en = en\<lparr>IsValidator := vg_IsValidator (ValidatorGroup en) (node_ID en)\<rparr>"

definition BroadcastToValidators ::
  "EmergencyNode \<Rightarrow> ConsensusMessage \<Rightarrow> (string \<times> ConsensusMessage) list" where
  "BroadcastToValidators en msg =
     map (\<lambda>peer. (peer_ID peer, msg))
       (filter (\<lambda>peer. peer_ID peer \<noteq> node_ID en \<and> peer_IsValidator peer) (Peers en))"

definition handlePrePrepare ::
  "Lib \<Rightarrow> Time \<Rightarrow> EmergencyNode \<Rightarrow> ConsensusMessage
     \<Rightarrow> panic + (EmergencyNode \<times> (string \<times> ConsensusMessage) list)" where
  "handlePrePrepare lib clock en msg =
     (if \<not> IsValidator en then Inr (en, [])
      else case VerifyBlock lib (Blockchain en) (Block msg) of
             Inl p \<Rightarrow> Inl p
           | Inr ok \<Rightarrow>
               if \<not> ok then Inr (en, [])
               else
                 let en = en\<lparr>prePrepareReceived :=
                               AList.update (BlockHash msg) msg (prePrepareReceived en)\<rparr>;
                     prepareMsg = \<lparr>Type = Prepare, BlockHash = BlockHash msg, Block = Block msg,
                                   msg_From = node_ID en, msg_Timestamp = clock\<rparr>
                 in Inr (en, BroadcastToValidators en prepareMsg))"

text \<open>Go's integer division truncates toward zero.\<close>

definition go_quot :: "int \<Rightarrow> int \<Rightarrow> int" where
  "go_quot a b = (if 0 \<le> a then a div b else - ((- a) div b))"

definition record_vote ::
  "(string \<times> (string \<times> bool) list) list \<Rightarrow> string \<Rightarrow> string \<Rightarrow> (string \<times> (string \<times> bool) list) list" where
  "record_vote votes blockHash sender =
     (let votes = (if map_of votes blockHash = None then AList.update blockHash [] votes else votes)
      in AList.update blockHash (AList.update sender True (inner_of votes blockHash)) votes)"

definition handlePrepare ::
  "Time \<Rightarrow> EmergencyNode \<Rightarrow> ConsensusMessage \<Rightarrow> EmergencyNode \<times> (string \<times> ConsensusMessage) list" where
  "handlePrepare clock en msg =
     (if \<not> IsValidator en then (en, [])
      else
        let en = en\<lparr>prepareVotes := record_vote (prepareVotes en) (BlockHash msg) (msg_From msg)\<rparr>;
            N = GetSize (ValidatorGroup en);
            f = go_quot (N - 1) 3;
            requiredVotes = f + 1
        in if int (length (inner_of (prepareVotes en) (BlockHash msg))) \<ge> requiredVotes
           then let commitMsg = \<lparr>Type = Commit, BlockHash = BlockHash msg, Block = Block msg,
                                  msg_From = node_ID en, msg_Timestamp = clock\<rparr>
                in (en, BroadcastToValidators en commitMsg)
           else (en, []))"

definition recordEmergencyInteractions ::
  "Time \<Rightarrow> (nat \<Rightarrow> real) \<Rightarrow> EmergencyNode \<Rightarrow> EmergencyBlock \<Rightarrow> EmergencyNode" where
  "recordEmergencyInteractions clock rnd en block =
     (if \<not> IsValidator en then en
      else foldl (\<lambda>en i.
                    let tx = Transactions block ! i;
                        posEvents = (if rnd i < 0.9 then 1 else 0);
                        negEvents = (if rnd i < 0.9 then 0 else 1);
                        intr = \<lparr>int_From = node_ID en, To = VehicleID tx, PosEvents = posEvents,
                                 NegEvents = negEvents, int_Timestamp = clock, TrajUser = [],
                                 TrajProvider = [], TxType = EmergencyTransaction,
                                 int_UrgencyDegree = tx_UrgencyDegree tx\<rparr>
                    in en\<lparr>ReputationManager := AddInteraction (ReputationManager en) intr\<rparr>)
             en [0..<length (Transactions block)])"

definition handleCommit ::
  "Time \<Rightarrow> (nat \<Rightarrow> real) \<Rightarrow> EmergencyNode \<Rightarrow> ConsensusMessage \<Rightarrow> EmergencyNode" where
  "handleCommit clock rnd en msg =
     (let en = en\<lparr>commitVotes := record_vote (commitVotes en) (BlockHash msg) (msg_From msg)\<rparr>;
          N = GetSize (ValidatorGroup en);
          f = go_quot (N - 1) 3;
          requiredVotes = 2 * f + 1
      in if int (length (inner_of (commitVotes en) (BlockHash msg))) \<ge> requiredVotes
         then
           let en = en\<lparr>Blockchain := AddBlock (Blockchain en) (Block msg)\<rparr>;
               en = recordEmergencyInteractions clock rnd en (Block msg)
           in en\<lparr>prePrepareReceived := AList.delete (BlockHash msg) (prePrepareReceived en),
                  prepareVotes := AList.delete (BlockHash msg) (prepareVotes en),
                  commitVotes := AList.delete (BlockHash msg) (commitVotes en)\<rparr>
         else en)"

definition ReceiveMessage ::
  "Lib \<Rightarrow> Time \<Rightarrow> (nat \<Rightarrow> real) \<Rightarrow> EmergencyNode \<Rightarrow> ConsensusMessage
     \<Rightarrow> panic + (EmergencyNode \<times> (string \<times> ConsensusMessage) list)" where
  "ReceiveMessage lib clock rnd en msg =
     (case Type msg of
        PrePrepare \<Rightarrow> handlePrePrepare lib clock en msg
      | Prepare \<Rightarrow> Inr (handlePrepare clock en msg)
      | Commit \<Rightarrow> Inr (handleCommit clock rnd en msg, [])
      | OtherMessageType \<Rightarrow> Inr (en, []))"

text \<open>
  \<open>ProposeEmergencyBlock\<close>. The transaction pool is non-empty when
  \<open>GetTopKTransactions\<close> is called, and the chain is read through \<open>GetLatestBlock\<close>
  without a nil check.
\<close>

definition ProposeEmergencyBlock ::
  "Lib \<Rightarrow> Time \<Rightarrow> EmergencyNode \<Rightarrow> panic + (EmergencyNode \<times> (string \<times> ConsensusMessage) list)" where
  "ProposeEmergencyBlock lib clock en =
     (if \<not> IsValidator en then Inr (en, [])
      else if Size (TxPool (Blockchain en)) = 0 then Inr (en, [])
      else case GetTopKTransactions (TxPool (Blockchain en)) (BlockSize (Blockchain en)) of
             Inl p \<Rightarrow> Inl p
           | Inr (transactions, pool) \<Rightarrow>
               let en = en\<lparr>Blockchain := (Blockchain en)\<lparr>TxPool := pool\<rparr>\<rparr>
               in if length transactions = 0 then Inr (en, [])
                  else case GetLatestBlock (Blockchain en) of
                         None \<Rightarrow> Inl NilPointerDereference
                       | Some latestBlock \<Rightarrow>
                           let newBlock = NewEmergencyBlock lib clock (int64 (Index latestBlock + 1))
                                            (Hash latestBlock) transactions
                                            (GetValidatorIDs (ValidatorGroup en));
                               prePrepareMsg = \<lparr>Type = PrePrepare, BlockHash = Hash newBlock,
                                                Block = newBlock, msg_From = node_ID en,
                                                msg_Timestamp = clock\<rparr>;
                               sent = BroadcastToValidators en prePrepareMsg
                           in case handlePrePrepare lib clock en prePrepareMsg of
                                Inl p \<Rightarrow> Inl p
                              | Inr (en, sent') \<Rightarrow> Inr (en, sent @ sent'))"

section \<open>Concrete inputs\<close>

text \<open>The inputs at which the theorems below are instantiated and the code is run.\<close>

definition tx0 :: EmergencyTransaction where
  "tx0 = \<lparr>tx_ID = ''a'', VehicleID = ''v'', Data = [], tx_Timestamp = 0,
           ProductTime = 0, DeadlineTime = 3000000000, ArrivalTime = 1000000000,
           Priority = 0, tx_UrgencyDegree = 0, Theta = 0\<rparr>"

text \<open>
  \<open>tx_rush\<close> arrives one nanosecond after it was produced and is due one second later.
\<close>

definition tx_rush :: EmergencyTransaction where
  "tx_rush = \<lparr>tx_ID = ''r'', VehicleID = ''v'', Data = [], tx_Timestamp = 0,
           ProductTime = 0, DeadlineTime = 1000000001, ArrivalTime = 1,
           Priority = 0, tx_UrgencyDegree = 0, Theta = 0\<rparr>"

text \<open>
  A stand-in for the library: the hash is the identity, the header is the
  concatenation of its two string fields, and the addition is the exact one. The
  theorems do not depend on it.
\<close>

definition toy_lib :: Lib where
  "toy_lib = \<lparr>sha256_hex = (\<lambda>s. s), json_Marshal = (\<lambda>i ts prev root. prev @ root),
              Format_RFC3339Nano = (\<lambda>t. []), f64_add = (\<lambda>a b. a + b)\<rparr>"

definition ebc0 :: EmergencyBlockchain where
  "ebc0 = NewEmergencyBlockchain 0 \<lparr>Omega = 1\<rparr> 2 1"

definition block1 :: EmergencyBlock where
  "block1 = NewEmergencyBlock toy_lib 0 1 ''genesis'' [tx0] []"

text \<open>Transactions with equal urgency; \<open>tie_twin\<close> repeats the id of \<open>tie_late\<close>.\<close>

definition tie_late :: EmergencyTransaction where
  "tie_late = \<lparr>tx_ID = ''a'', VehicleID = ''v1'', Data = [], tx_Timestamp = 0,
           ProductTime = 0, DeadlineTime = 9, ArrivalTime = 5,
           Priority = 0, tx_UrgencyDegree = 1, Theta = 0\<rparr>"

definition tie_early :: EmergencyTransaction where
  "tie_early = \<lparr>tx_ID = ''b'', VehicleID = ''v2'', Data = [], tx_Timestamp = 0,
           ProductTime = 0, DeadlineTime = 9, ArrivalTime = 3,
           Priority = 0, tx_UrgencyDegree = 1, Theta = 0\<rparr>"

definition tie_twin :: EmergencyTransaction where
  "tie_twin = tie_early\<lparr>tx_ID := ''a''\<rparr>"

text \<open>A block of two transactions on top of the genesis block.\<close>

definition block2 :: EmergencyBlock where
  "block2 = NewEmergencyBlock toy_lib 0 1 ''genesis'' [tie_late, tie_early] []"

section \<open>Orders and invariants used in the statements and proofs\<close>

text \<open>
  The order that the specification states for the returned transactions: larger urgency
  first, then earlier arrival, then the smaller id in the byte-wise lexicographic order
  of Go strings.
\<close>

definition id_less :: "string \<Rightarrow> string \<Rightarrow> bool" where
  "id_less a b = ((a, b) \<in> lexord {(c, d). (of_char c :: nat) < of_char d})"

definition claimed_order :: "EmergencyTransaction \<Rightarrow> EmergencyTransaction \<Rightarrow> bool" where
  "claimed_order a b =
     (tx_UrgencyDegree b < tx_UrgencyDegree a
      \<or> (tx_UrgencyDegree a = tx_UrgencyDegree b
          \<and> (ArrivalTime a < ArrivalTime b
              \<or> (ArrivalTime a = ArrivalTime b \<and> (id_less (tx_ID a) (tx_ID b) \<or> tx_ID a = tx_ID b)))))"

text \<open>
  What the library documents for \<open>sort.Slice\<close>. The comparison \<open>lt\<close> must describe a
  transitive ordering of the elements: \<open>lt\<close> is transitive, and so is its negation
  (\<open>strict_weak_order_on\<close>; no element is \<open>lt\<close> itself). For such a comparison the
  result is a rearrangement of the slice in which no element is \<open>lt\<close> an element before
  it (\<open>sorts\<close>); the order of elements that \<open>lt\<close> does not separate is left open, the
  sort is not stable. \<open>sort_contract\<close> says that a function keeps this promise.
\<close>

definition sorts :: "(('a \<Rightarrow> 'a \<Rightarrow> bool) \<Rightarrow> 'a list \<Rightarrow> 'a list) \<Rightarrow> ('a \<Rightarrow> 'a \<Rightarrow> bool) \<Rightarrow> 'a list \<Rightarrow> bool" where
  "sorts sort_Slice lt xs =
     (mset (sort_Slice lt xs) = mset xs \<and> sorted_wrt (\<lambda>a b. \<not> lt b a) (sort_Slice lt xs))"

definition strict_weak_order_on :: "('a \<Rightarrow> 'a \<Rightarrow> bool) \<Rightarrow> 'a set \<Rightarrow> bool" where
  "strict_weak_order_on lt S =
     ((\<forall>a \<in> S. \<not> lt a a)
      \<and> (\<forall>a \<in> S. \<forall>b \<in> S. \<forall>c \<in> S. lt a b \<and> lt b c \<longrightarrow> lt a c)
      \<and> (\<forall>a \<in> S. \<forall>b \<in> S. \<forall>c \<in> S. \<not> lt a b \<and> \<not> lt b c \<longrightarrow> \<not> lt a c))"

definition sort_contract :: "(('a \<Rightarrow> 'a \<Rightarrow> bool) \<Rightarrow> 'a list \<Rightarrow> 'a list) \<Rightarrow> bool" where
  "sort_contract sort_Slice =
     (\<forall>lt xs. strict_weak_order_on lt (set xs) \<longrightarrow> sorts sort_Slice lt xs)"

text \<open>
  The insertion of one element into a sorted prefix, as the inner loop of the insertion
  sort performs it, on the reversed prefix: the element passes every neighbour that it is
  \<open>lt\<close>.
\<close>

fun place :: "('a \<Rightarrow> 'a \<Rightarrow> bool) \<Rightarrow> 'a \<Rightarrow> 'a list \<Rightarrow> 'a list" where
  "place lt x [] = [x]"
| "place lt x (y # ys) = (if lt x y then y # place lt x ys else x # y # ys)"




text \<open>
  One pass of the inner loop over a whole list, by recursion on the list: the less urgent
  of two neighbours moves right.
\<close>

fun bubble_pass :: "EmergencyTransaction list \<Rightarrow> EmergencyTransaction list" where
  "bubble_pass (x # y # zs) =
     (if tx_UrgencyDegree x < tx_UrgencyDegree y then y # bubble_pass (x # zs)
      else x # bubble_pass (y # zs))"
| "bubble_pass zs = zs"

text \<open>
  The invariant of the outer loop: the last \<open>i\<close> elements are in non-increasing order
  of urgency and none of them is more urgent than an element before them.
\<close>

definition desc :: "EmergencyTransaction list \<Rightarrow> bool" where
  "desc xs = sorted_wrt (\<lambda>a b. tx_UrgencyDegree b \<le> tx_UrgencyDegree a) xs"

definition outer_inv :: "EmergencyTransaction list \<Rightarrow> nat \<Rightarrow> bool" where
  "outer_inv xs i =
     (desc (drop (length xs - i) xs)
      \<and> (\<forall>x \<in> set (take (length xs - i) xs). \<forall>y \<in> set (drop (length xs - i) xs).
            tx_UrgencyDegree y \<le> tx_UrgencyDegree x))"

text \<open>
  A committee of four and the node \<open>n1\<close> of it, on the chain that holds the genesis
  block only; its peers \<open>n2\<close>, \<open>n4\<close> and \<open>n5\<close> are the other validators, the peer
  \<open>n3\<close> is not a validator.
\<close>

definition vg4 :: ValidatorGroup where
  "vg4 = \<lparr>Validators = [\<lparr>val_ID = ''n1'', Reputation = Fin 0.5\<rparr>,
                          \<lparr>val_ID = ''n2'', Reputation = Fin 0.5\<rparr>,
                          \<lparr>val_ID = ''n4'', Reputation = Fin 0.5\<rparr>,
                          \<lparr>val_ID = ''n5'', Reputation = Fin 0.5\<rparr>],
           GroupSize = 4, ActivePeriod = 2, CurrentRound = 0, CreatedAt = 0\<rparr>"

definition cfg1 :: Config where
  "cfg1 = \<lparr>Rho1 = 1/3, Rho2 = 1/3, Rho3 = 1/3, Eta = 1, Epsilon = 1,
           Tau1 = 1/3, Tau2 = 1/3, Tau3 = 1/3, Mu = 1, Gamma = 1/2\<rparr>"

definition node1 :: EmergencyNode where
  "node1 = \<lparr>node_ID = ''n1'', IsValidator = True, Blockchain = ebc0,
            ReputationManager = NewReputationManager cfg1, ValidatorGroup = vg4,
            Peers = [\<lparr>peer_ID = ''n2'', peer_IsValidator = True\<rparr>,
                     \<lparr>peer_ID = ''n3'', peer_IsValidator = False\<rparr>,
                     \<lparr>peer_ID = ''n4'', peer_IsValidator = True\<rparr>,
                     \<lparr>peer_ID = ''n5'', peer_IsValidator = True\<rparr>],
            prePrepareReceived = [], prepareVotes = [], commitVotes = []\<rparr>"

definition announce :: "EmergencyBlock \<Rightarrow> ConsensusMessage" where
  "announce b = \<lparr>Type = PrePrepare, BlockHash = Hash b, Block = b, msg_From = ''n2'',
                 msg_Timestamp = 0\<rparr>"

definition commit_from :: "string \<Rightarrow> ConsensusMessage" where
  "commit_from sender = \<lparr>Type = Commit, BlockHash = Hash block1, Block = block1,
                         msg_From = sender, msg_Timestamp = 0\<rparr>"

text \<open>
  Reputation logs under the configuration of the specification's first scenario. An entry
  \<open>report f t p n\<close> is an evaluation of \<open>t\<close> by \<open>f\<close> with \<open>p\<close> positive and \<open>n\<close> negative
  events, a Normal transaction at time 0 without trajectory samples.
\<close>

definition report :: "string \<Rightarrow> string \<Rightarrow> int \<Rightarrow> int \<Rightarrow> Interaction" where
  "report f t p n =
     \<lparr>int_From = f, To = t, PosEvents = p, NegEvents = n, int_Timestamp = 0, TrajUser = [],
      TrajProvider = [], TxType = NormalTransaction, int_UrgencyDegree = 0\<rparr>"

definition rm_of :: "Interaction list \<Rightarrow> ReputationManager" where
  "rm_of entries = \<lparr>cfg = cfg1, interactions = entries\<rparr>"

definition rm_single :: ReputationManager where
  "rm_single = rm_of [report ''A'' ''B'' 1 0]"

definition rm_mutual :: ReputationManager where
  "rm_mutual = rm_of [report ''S'' ''T'' 2 0, report ''T'' ''S'' 2 0]"

definition rm_oneway :: ReputationManager where
  "rm_oneway = rm_of [report ''X'' ''T'' 1 0, report ''T'' ''S'' 1 0]"

text \<open>The direct opinions that the logs above give rise to.\<close>

definition half_opinion :: DirectOpinion where
  "half_opinion = \<lparr>Opinion = \<lparr>op_T = Fin (1 / 2), op_D = Fin 0, op_I = Fin (1 / 2)\<rparr>,
                    Weight = Fin (2 / 3)\<rparr>"

definition third_opinion :: DirectOpinion where
  "third_opinion = \<lparr>Opinion = \<lparr>op_T = Fin (1 / 3), op_D = Fin 0, op_I = Fin (2 / 3)\<rparr>,
                    Weight = Fin (2 / 3)\<rparr>"

text \<open>
  A log with one evaluation of \<open>B\<close> by \<open>A\<close> that counts 710 negative events and no
  positive one, and the direct opinion that it gives rise to; before it, a log with one
  positive and one negative event under an error-factor scale \<open>\<mu> = 10\<close>.
\<close>

definition rm_mu10 :: ReputationManager where
  "rm_mu10 = \<lparr>cfg = cfg1\<lparr>Mu := 10\<rparr>, interactions = [report ''A'' ''B'' 1 1]\<rparr>"



text \<open>
  Two candidates without any interaction in their logs, \<open>b\<close> listed before \<open>a\<close>, and a
  committee of size one; \<open>vg_idle\<close> has an active period of zero rounds.
\<close>

definition rms_ab :: "string \<Rightarrow> ReputationManager option" where
  "rms_ab nodeID =
     (if nodeID = ''a'' \<or> nodeID = ''b'' then Some (NewReputationManager cfg1) else None)"

text \<open>
  Two candidates with different reputations, the lower one listed first: the log of \<open>Z\<close>
  is empty, the log of \<open>B\<close> holds one positive evaluation of \<open>B\<close>.
\<close>

definition rms_zb :: "string \<Rightarrow> ReputationManager option" where
  "rms_zb nodeID =
     (if nodeID = ''Z'' then Some (NewReputationManager cfg1)
      else if nodeID = ''B'' then Some rm_single else None)"

text \<open>
  Three candidates: \<open>T\<close> brings the log whose fusion divides by zero.
\<close>

definition rms_ztb :: "string \<Rightarrow> ReputationManager option" where
  "rms_ztb nodeID =
     (if nodeID = ''Z'' then Some (NewReputationManager cfg1)
      else if nodeID = ''T'' then Some rm_oneway
      else if nodeID = ''B'' then Some rm_single else None)"

definition vg_one :: ValidatorGroup where
  "vg_one = NewValidatorGroup 0 1 2"

definition vg_idle :: ValidatorGroup where
  "vg_idle = NewValidatorGroup 0 1 0"

text \<open>
  The test of \<open>handleCommit\<close>: with the vote of \<open>msg\<close> recorded, the commit votes
  for its block hash number at least \<open>2f + 1\<close>.
\<close>

definition commit_reached :: "EmergencyNode \<Rightarrow> ConsensusMessage \<Rightarrow> bool" where
  "commit_reached en msg =
     (2 * go_quot (GetSize (ValidatorGroup en) - 1) 3 + 1
        \<le> int (length (inner_of (record_vote (commitVotes en) (BlockHash msg) (msg_From msg))
                          (BlockHash msg))))"

section \<open>Properties\<close>

subsection \<open>Helper facts\<close>

lemma int64_id: "- (2 ^ 63) \<le> n \<Longrightarrow> n < 2 ^ 63 \<Longrightarrow> int64 n = n"
  by (simp add: int64_def)

subsection \<open>Order facts about \<open>f64\<close>\<close>


lemma fexp_mono:
  "a \<le> b \<Longrightarrow> fle (fexp (Fin a)) (fexp (Fin b))"
  by (auto simp: Overflow_def Underflow_def)

lemma fexp_nonneg: "x \<noteq> NaN \<Longrightarrow> fle (Fin 0) (fexp x)"
  by (cases x) auto

lemma fmul_nonneg:
  "fle (Fin 0) e \<Longrightarrow> fle (Fin 0) x \<Longrightarrow> isNaN (fmul e x) \<or> fle (Fin 0) (fmul e x)"
  by (cases e; cases x) (auto simp: isNaN_def)

lemma fmul_nan_iff:
  "fle (Fin 0) e \<Longrightarrow> fle (Fin 0) x \<Longrightarrow>
     isNaN (fmul e x) \<longleftrightarrow> e = Fin 0 \<and> x = PInf \<or> e = PInf \<and> x = Fin 0"
  by (cases e; cases x) (auto simp: isNaN_def)

lemma fmul_not_gt_right:
  assumes "fle (Fin 0) e" "fle (Fin 0) x" "fle x y"
  shows "\<not> fgt (fmul e x) (fmul e y)"
  using assms
  by (cases e; cases x; cases y) (auto simp: mult_left_mono not_less split: if_splits)

lemma fmul_not_gt_left:
  assumes "fle (Fin 0) x" "fle (Fin 0) e" "fle e e'"
  shows "\<not> fgt (fmul e x) (fmul e' x)"
  using assms
  by (cases e; cases e'; cases x) (auto simp: mult_right_mono not_less split: if_splits)

lemma not_fgt_fle: "x \<noteq> NaN \<Longrightarrow> y \<noteq> NaN \<Longrightarrow> \<not> fgt x y \<longleftrightarrow> fle x y"
  by (cases x; cases y) auto

subsection \<open>Urgency scorer\<close>

lemma E_of_nonneg: "fle (Fin 0) (E_of tx)"
  by (auto simp: E_of_def)

lemma E_of_value:
  "E_of tx = (if 0 < TrMinusTu_of tx then fexp (Fin (- Tc_of tx / TrMinusTu_of tx)) else Fin 0.1)"
  by (simp add: E_of_def)

lemma Tc_tx0: "Tc_of tx0 = 2" "TrMinusTu_of tx0 = 1"
  by (simp_all add: Tc_of_def TrMinusTu_of_def tx0_def Seconds_def Sub_def minDuration_def
      maxDuration_def)

lemma Tc_tx_rush: "Tc_of tx_rush = 1" "TrMinusTu_of tx_rush = 1 / 1000000000"
  by (simp_all add: Tc_of_def TrMinusTu_of_def tx_rush_def Seconds_def Sub_def minDuration_def
      maxDuration_def)

lemma Tc_update_Theta [simp]:
  "Tc_of (tx\<lparr>Theta := n\<rparr>) = Tc_of tx" "TrMinusTu_of (tx\<lparr>Theta := n\<rparr>) = TrMinusTu_of tx"
  by (simp_all add: Tc_of_def TrMinusTu_of_def)

lemma negative_weight_decreases:
  "fgt (UrgencyDegree_of \<lparr>Omega = - 1\<rparr> tx0) (UrgencyDegree_of \<lparr>Omega = - 1\<rparr> (tx0\<lparr>Theta := 1\<rparr>))"
proof -
  have t: "Theta tx0 = 0" by (simp add: tx0_def)
  have "exp (- 2) * exp (- 1) < exp (- 2) * (1 :: real)"
    by (intro mult_strict_left_mono) simp_all
  then show ?thesis
    by (simp add: UrgencyDegree_of_def E_of_value Tc_tx0 t Overflow_def Underflow_def)
qed

text \<open>
  C7, as stated, fails in two ways. For a weight \<open>\<omega> = 0\<close>, raising the prior count \<open>\<theta>\<close>
  from 0 to 1 leaves the urgency where it was. For \<open>\<omega> = 1\<close> and the transaction
  \<open>tx_rush\<close>, \<open>-Tc / \<Delta>TR\<close> is \<open>-10\<^sup>9\<close>, \<open>math.Exp\<close> underflows to 0, and the urgency
  is 0 for \<open>\<theta> = 0\<close> and for \<open>\<theta> = 1\<close>.
\<close>

theorem urgency_theta_counterexample:
  "\<not> fgt (UrgencyDegree_of \<lparr>Omega = 0\<rparr> (tx0\<lparr>Theta := 1\<rparr>))
         (UrgencyDegree_of \<lparr>Omega = 0\<rparr> (tx0\<lparr>Theta := 0\<rparr>))
   \<and> UrgencyDegree_of \<lparr>Omega = 1\<rparr> (tx_rush\<lparr>Theta := 0\<rparr>) = Fin 0
   \<and> UrgencyDegree_of \<lparr>Omega = 1\<rparr> (tx_rush\<lparr>Theta := 1\<rparr>) = Fin 0
   \<and> \<not> fgt (UrgencyDegree_of \<lparr>Omega = 1\<rparr> (tx_rush\<lparr>Theta := 1\<rparr>))
           (UrgencyDegree_of \<lparr>Omega = 1\<rparr> (tx_rush\<lparr>Theta := 0\<rparr>))"
  by (simp add: UrgencyDegree_of_def E_of_value Tc_tx0 Tc_tx_rush Overflow_def Underflow_def)

text \<open>
  C7 (amended): the urgency that \<open>CalculateUrgencyDegree\<close> assigns is the product of
  \<open>E\<close> and \<open>math.Exp (\<omega> \<sqdot> \<theta>)\<close>, with \<open>E = math.Exp (- Tc / \<Delta>TR)\<close> when \<open>\<Delta>TR > 0\<close> and
  \<open>E = 0.1\<close> otherwise. It is NaN exactly when one of the two factors is 0 and the other
  \<open>+Inf\<close>, and it is non-negative otherwise. With tp, ta, td fixed and a weight \<open>\<omega> \<ge> 0\<close>,
  a larger prior count \<open>\<theta>\<close> never gives a smaller urgency; with \<open>\<Delta>TR = ta - tp\<close> fixed and
  \<open>\<theta>\<close> fixed, a larger expected delay \<open>Tc = td - ta\<close> never gives a larger urgency. Here
  smaller and larger are the comparisons of Go, which are false when an operand is NaN.
  The urgency need not change strictly, and for a negative weight a larger prior count
  does give a smaller urgency (\<open>negative_weight_decreases\<close>).
\<close>

theorem urgency_scorer:
  "UrgencyDegree_of ucfg tx
     = fmul (if 0 < TrMinusTu_of tx then fexp (Fin (- Tc_of tx / TrMinusTu_of tx)) else Fin 0.1)
            (fexp (Fin (Omega ucfg * real_of_int (Theta tx))))
   \<and> (isNaN (UrgencyDegree_of ucfg tx) \<or> fle (Fin 0) (UrgencyDegree_of ucfg tx))
   \<and> (isNaN (UrgencyDegree_of ucfg tx) \<longleftrightarrow>
        E_of tx = Fin 0 \<and> fexp (Fin (Omega ucfg * real_of_int (Theta tx))) = PInf
        \<or> E_of tx = PInf \<and> fexp (Fin (Omega ucfg * real_of_int (Theta tx))) = Fin 0)
   \<and> (0 \<le> Omega ucfg \<and> ProductTime tx' = ProductTime tx \<and> ArrivalTime tx' = ArrivalTime tx
        \<and> DeadlineTime tx' = DeadlineTime tx \<and> Theta tx \<le> Theta tx' \<longrightarrow>
      \<not> fgt (UrgencyDegree_of ucfg tx) (UrgencyDegree_of ucfg tx'))
   \<and> (TrMinusTu_of tx' = TrMinusTu_of tx \<and> Theta tx' = Theta tx \<and> Tc_of tx \<le> Tc_of tx' \<longrightarrow>
      \<not> fgt (UrgencyDegree_of ucfg tx') (UrgencyDegree_of ucfg tx))"
proof (intro conjI impI)
  let ?X = "\<lambda>t. fexp (Fin (Omega ucfg * real_of_int (Theta t)))"
  have U: "UrgencyDegree_of ucfg t = fmul (E_of t) (?X t)" for t
    by (simp add: UrgencyDegree_of_def)
  have X0: "fle (Fin 0) (?X t)" for t by (rule fexp_nonneg) simp
  show "UrgencyDegree_of ucfg tx
     = fmul (if 0 < TrMinusTu_of tx then fexp (Fin (- Tc_of tx / TrMinusTu_of tx)) else Fin 0.1)
            (fexp (Fin (Omega ucfg * real_of_int (Theta tx))))"
    unfolding U E_of_value ..
  show "isNaN (UrgencyDegree_of ucfg tx) \<or> fle (Fin 0) (UrgencyDegree_of ucfg tx)"
    unfolding U by (rule fmul_nonneg [OF E_of_nonneg X0])
  show "isNaN (UrgencyDegree_of ucfg tx) \<longleftrightarrow>
        E_of tx = Fin 0 \<and> fexp (Fin (Omega ucfg * real_of_int (Theta tx))) = PInf
        \<or> E_of tx = PInf \<and> fexp (Fin (Omega ucfg * real_of_int (Theta tx))) = Fin 0"
    unfolding U by (rule fmul_nan_iff [OF E_of_nonneg X0])
  {
    assume h: "0 \<le> Omega ucfg \<and> ProductTime tx' = ProductTime tx \<and> ArrivalTime tx' = ArrivalTime tx
        \<and> DeadlineTime tx' = DeadlineTime tx \<and> Theta tx \<le> Theta tx'"
    then have same: "E_of tx' = E_of tx"
      by (simp add: E_of_def Tc_of_def TrMinusTu_of_def)
    from h have "Omega ucfg * real_of_int (Theta tx) \<le> Omega ucfg * real_of_int (Theta tx')"
      by (simp add: mult_left_mono)
    then have "fle (?X tx) (?X tx')" by (rule fexp_mono)
    then show "\<not> fgt (UrgencyDegree_of ucfg tx) (UrgencyDegree_of ucfg tx')"
      unfolding U same by (rule fmul_not_gt_right [OF E_of_nonneg X0])
  }
  {
    assume h: "TrMinusTu_of tx' = TrMinusTu_of tx \<and> Theta tx' = Theta tx \<and> Tc_of tx \<le> Tc_of tx'"
    have e: "fle (E_of tx') (E_of tx)"
    proof (cases "0 < TrMinusTu_of tx")
      case True
      with h have "- Tc_of tx' / TrMinusTu_of tx \<le> - Tc_of tx / TrMinusTu_of tx"
        by (simp add: divide_right_mono)
      then have "fle (fexp (Fin (- Tc_of tx' / TrMinusTu_of tx)))
                     (fexp (Fin (- Tc_of tx / TrMinusTu_of tx)))"
        by (rule fexp_mono)
      then show ?thesis using h True by (simp add: E_of_value)
    next
      case False
      then show ?thesis using h by (simp add: E_of_value)
    qed
    from h have x: "?X tx' = ?X tx" by simp
    show "\<not> fgt (UrgencyDegree_of ucfg tx') (UrgencyDegree_of ucfg tx)"
      unfolding U x by (rule fmul_not_gt_left [OF X0 E_of_nonneg e])
  }
qed

theorem urgency_scorer_witness:
  "\<not> fgt (UrgencyDegree_of \<lparr>Omega = 1\<rparr> tx0) (UrgencyDegree_of \<lparr>Omega = 1\<rparr> (tx0\<lparr>Theta := 1\<rparr>))
   \<and> \<not> fgt (UrgencyDegree_of \<lparr>Omega = 1\<rparr> (tx0\<lparr>DeadlineTime := 4000000000\<rparr>))
           (UrgencyDegree_of \<lparr>Omega = 1\<rparr> tx0)
   \<and> fgt (UrgencyDegree_of \<lparr>Omega = 1\<rparr> (tx0\<lparr>Theta := 1\<rparr>)) (UrgencyDegree_of \<lparr>Omega = 1\<rparr> tx0)"
proof -
  have c: "fgt (UrgencyDegree_of \<lparr>Omega = 1\<rparr> (tx0\<lparr>Theta := 1\<rparr>)) (UrgencyDegree_of \<lparr>Omega = 1\<rparr> tx0)"
  proof -
    have t: "Theta tx0 = 0" by (simp add: tx0_def)
    have "exp (- 2) * 1 < exp (- 2) * exp (1 :: real)"
      by (intro mult_strict_left_mono) simp_all
    then show ?thesis
      by (simp add: UrgencyDegree_of_def E_of_value Tc_tx0 t Overflow_def Underflow_def)
  qed
  have a: "0 \<le> Omega \<lparr>Omega = 1\<rparr> \<and> ProductTime (tx0\<lparr>Theta := 1\<rparr>) = ProductTime tx0
      \<and> ArrivalTime (tx0\<lparr>Theta := 1\<rparr>) = ArrivalTime tx0
      \<and> DeadlineTime (tx0\<lparr>Theta := 1\<rparr>) = DeadlineTime tx0
      \<and> Theta tx0 \<le> Theta (tx0\<lparr>Theta := 1\<rparr>)"
    by (simp add: tx0_def)
  have b: "TrMinusTu_of (tx0\<lparr>DeadlineTime := 4000000000\<rparr>) = TrMinusTu_of tx0
      \<and> Theta (tx0\<lparr>DeadlineTime := 4000000000\<rparr>) = Theta tx0
      \<and> Tc_of tx0 \<le> Tc_of (tx0\<lparr>DeadlineTime := 4000000000\<rparr>)"
    by (simp add: Tc_of_def TrMinusTu_of_def tx0_def Seconds_def Sub_def minDuration_def
        maxDuration_def)
  show ?thesis
    using a b c
      urgency_scorer [where ucfg = "\<lparr>Omega = 1\<rparr>" and tx = tx0 and tx' = "tx0\<lparr>Theta := 1\<rparr>"]
      urgency_scorer [where ucfg = "\<lparr>Omega = 1\<rparr>" and tx = tx0
        and tx' = "tx0\<lparr>DeadlineTime := 4000000000\<rparr>"]
    by blast
qed

subsection \<open>Block verification\<close>

lemma GetLatestBlock_ebc0: "GetLatestBlock ebc0 = Some (genesisBlock 0)"
  by (simp add: GetLatestBlock_def ebc0_def NewEmergencyBlockchain_def)

lemma block1_eval:
  "block1 = \<lparr>Index = 1, blk_Timestamp = 0, PrevHash = ''genesis'', Hash = ''genesisa'',
      MerkleRoot = ''a'', Signature = [], ValidatorIDs = [], Transactions = [tx0],
      TotalUrgency = 0\<rparr>"
  by (simp add: block1_def NewEmergencyBlock_def Let_def CalculateMerkleRoot_def
      CalculateTotalUrgency_def CalculateHash_def toy_lib_def tx0_def)

lemma GetLatestBlock_last:
  "GetLatestBlock ebc = (if Chain ebc = [] then None else Some (last (Chain ebc)))"
  by (simp add: GetLatestBlock_def last_conv_nth)

lemma foldl_ids: "foldl (\<lambda>txIDs tx. txIDs @ tx_ID tx) acc txs = acc @ concat (map tx_ID txs)"
  by (induction txs arbitrary: acc) simp_all

lemma CalculateMerkleRoot_concat:
  "CalculateMerkleRoot lib b =
     (if Transactions b = [] then [] else sha256_hex lib (concat (map tx_ID (Transactions b))))"
  by (simp add: CalculateMerkleRoot_def foldl_ids)

lemma CalculateTotalUrgency_fold:
  "CalculateTotalUrgency lib b = foldl (f64_add lib) 0 (map tx_UrgencyDegree (Transactions b))"
  by (simp add: CalculateTotalUrgency_def foldl_map)

text \<open>
  C4: \<open>VerifyBlock\<close> returns true exactly when the chain is not empty and, with its last
  block as tip, the five checks hold: the index is the tip's index plus one (in 64-bit
  arithmetic); the previous hash is the tip's hash; the stored merkle root is the SHA-256
  of the concatenated transaction ids, or the empty string for a block without
  transactions; the stored hash is the SHA-256 of the JSON encoding of index, formatted
  timestamp, previous hash and stored merkle root; and the stored total urgency is the
  sum of the urgencies of the transactions, added up from 0 in block order with the
  \<open>float64\<close> addition. On the empty chain, and only there, the call panics on the nil
  tip.
\<close>

theorem VerifyBlock_iff:
  "(VerifyBlock lib ebc block = Inr True \<longleftrightarrow>
      Chain ebc \<noteq> []
      \<and> Index block = int64 (Index (last (Chain ebc)) + 1)
      \<and> PrevHash block = Hash (last (Chain ebc))
      \<and> MerkleRoot block
          = (if Transactions block = [] then []
             else sha256_hex lib (concat (map tx_ID (Transactions block))))
      \<and> Hash block
          = sha256_hex lib
              (json_Marshal lib (Index block) (Format_RFC3339Nano lib (blk_Timestamp block))
                 (PrevHash block) (MerkleRoot block))
      \<and> TotalUrgency block
          = foldl (f64_add lib) 0 (map tx_UrgencyDegree (Transactions block)))
   \<and> (VerifyBlock lib ebc block = Inl NilPointerDereference \<longleftrightarrow> Chain ebc = [])"
  by (simp add: VerifyBlock_def GetLatestBlock_last CalculateMerkleRoot_concat
      CalculateTotalUrgency_fold CalculateHash_def)

lemma block2_eval:
  "block2 = \<lparr>Index = 1, blk_Timestamp = 0, PrevHash = ''genesis'', Hash = ''genesisab'',
      MerkleRoot = ''ab'', Signature = [], ValidatorIDs = [], Transactions = [tie_late, tie_early],
      TotalUrgency = 2\<rparr>"
  by (simp add: block2_def NewEmergencyBlock_def Let_def CalculateMerkleRoot_def
      CalculateTotalUrgency_def CalculateHash_def toy_lib_def tie_late_def tie_early_def)

theorem VerifyBlock_iff_witness:
  "VerifyBlock toy_lib ebc0 block2 = Inr True
   \<and> VerifyBlock toy_lib ebc0 (block2\<lparr>TotalUrgency := 1\<rparr>) \<noteq> Inr True
   \<and> VerifyBlock toy_lib ebc0 (block2\<lparr>MerkleRoot := ''a''\<rparr>) \<noteq> Inr True
   \<and> VerifyBlock toy_lib (ebc0\<lparr>Chain := []\<rparr>) block2 = Inl NilPointerDereference"
proof -
  have c: "Chain ebc0 = [genesisBlock 0]"
    by (simp add: ebc0_def NewEmergencyBlockchain_def)
  have g: "Index (genesisBlock 0) = 0" "Hash (genesisBlock 0) = ''genesis''"
    by (simp_all add: genesisBlock_def)
  have t: "tx_ID tie_late = ''a''" "tx_ID tie_early = ''b''"
      "tx_UrgencyDegree tie_late = 1" "tx_UrgencyDegree tie_early = 1"
    by (simp_all add: tie_late_def tie_early_def)
  have l: "sha256_hex toy_lib = (\<lambda>s. s)" "json_Marshal toy_lib = (\<lambda>i ts prev root. prev @ root)"
      "f64_add toy_lib = (\<lambda>a b. a + b)"
    by (simp_all add: toy_lib_def)
  show ?thesis
    using VerifyBlock_iff [of toy_lib ebc0 block2]
      VerifyBlock_iff [of toy_lib ebc0 "block2\<lparr>TotalUrgency := 1\<rparr>"]
      VerifyBlock_iff [of toy_lib ebc0 "block2\<lparr>MerkleRoot := ''a''\<rparr>"]
      VerifyBlock_iff [of toy_lib "ebc0\<lparr>Chain := []\<rparr>" block2]
    by (simp add: block2_eval c g t l int64_id)
qed

subsection \<open>The bubble sort is the stable sort by descending urgency\<close>

lemma swap_step_decomp:
  assumes "j + 1 < length xs"
  shows "swap_step xs j = take j xs @
           (if tx_UrgencyDegree (xs ! j) < tx_UrgencyDegree (xs ! (j + 1))
            then [xs ! (j + 1), xs ! j] else [xs ! j, xs ! (j + 1)]) @ drop (j + 2) xs"
proof -
  have xs: "xs = take j xs @ xs ! j # xs ! (j + 1) # drop (j + 2) xs"
    using assms by (simp add: Cons_nth_drop_Suc)
  have len: "length (take j xs) = j" using assms by simp
  show ?thesis
  proof (cases "tx_UrgencyDegree (xs ! j) < tx_UrgencyDegree (xs ! (j + 1))")
    case False
    then show ?thesis using xs by (simp add: swap_step_def)
  next
    case True
    have "xs[j := xs ! (j + 1), j + 1 := xs ! j]
        = (take j xs @ xs ! j # xs ! (j + 1) # drop (j + 2) xs)[j := xs ! (j + 1), j + 1 := xs ! j]"
      using xs by simp
    also have "\<dots> = take j xs @ xs ! (j + 1) # xs ! j # drop (j + 2) xs"
      using len by (simp add: list_update_append)
    finally show ?thesis using True by (simp add: swap_step_def)
  qed
qed

lemma length_bubble_pass: "length (bubble_pass zs) = length zs"
  by (induction zs rule: bubble_pass.induct) auto

lemma mset_bubble_pass: "mset (bubble_pass zs) = mset zs"
  by (induction zs rule: bubble_pass.induct) auto

lemma filter_bubble_pass:
  "filter (\<lambda>x. tx_UrgencyDegree x = v) (bubble_pass zs) = filter (\<lambda>x. tx_UrgencyDegree x = v) zs"
  by (induction zs rule: bubble_pass.induct) auto

lemma last_bubble_pass_min:
  "zs \<noteq> [] \<Longrightarrow> x \<in> set zs \<Longrightarrow> tx_UrgencyDegree (last (bubble_pass zs)) \<le> tx_UrgencyDegree x"
proof (induction zs arbitrary: x rule: bubble_pass.induct)
  case (1 a b zs)
  show ?case
  proof (cases "tx_UrgencyDegree a < tx_UrgencyDegree b")
    case True
    have ne: "bubble_pass (a # zs) \<noteq> []"
      using length_bubble_pass [of "a # zs"] by (metis length_0_conv list.distinct(1))
    have l: "last (bubble_pass (a # b # zs)) = last (bubble_pass (a # zs))"
      using True ne by simp
    have m: "tx_UrgencyDegree (last (bubble_pass (a # zs))) \<le> tx_UrgencyDegree y"
      if "y \<in> set (a # zs)" for y
      using "1.IH"(1) [OF True _ that] by simp
    from "1.prems"(2) consider "x = b" | "x \<in> set (a # zs)" by auto
    then show ?thesis
    proof cases
      case 1
      then show ?thesis using l m [of a] True by simp
    next
      case 2
      then show ?thesis using l m [of x] by simp
    qed
  next
    case False
    have ne: "bubble_pass (b # zs) \<noteq> []"
      using length_bubble_pass [of "b # zs"] by (metis length_0_conv list.distinct(1))
    have l: "last (bubble_pass (a # b # zs)) = last (bubble_pass (b # zs))"
      using False ne by simp
    have m: "tx_UrgencyDegree (last (bubble_pass (b # zs))) \<le> tx_UrgencyDegree y"
      if "y \<in> set (b # zs)" for y
      using "1.IH"(2) [OF False _ that] by simp
    from "1.prems"(2) consider "x = a" | "x \<in> set (b # zs)" by auto
    then show ?thesis
    proof cases
      case 1
      then show ?thesis using l m [of b] False by simp
    next
      case 2
      then show ?thesis using l m [of x] by simp
    qed
  qed
qed simp_all

lemma bubble_pass_single: "bubble_pass [x] = [x]"
  by simp

lemma inner_loop_bubble_pass:
  "j + i + 1 \<le> length xs \<Longrightarrow>
     inner_loop xs i j
       = take j xs @ bubble_pass (take (length xs - i - j) (drop j xs)) @ drop (length xs - i) xs"
proof (induction xs i j rule: inner_loop.induct)
  case (1 xs i j)
  let ?n = "length xs"
  show ?case
  proof (cases "j + i + 1 < ?n")
    case False
    with "1.prems" have e: "?n - i - j = 1" "?n - i = j + 1" by auto
    have "take 1 (drop j xs) = [xs ! j]"
      using "1.prems" by (simp add: take_Suc_conv_app_nth)
    then have "take j xs @ bubble_pass (take (?n - i - j) (drop j xs)) @ drop (?n - i) xs
        = take j xs @ [xs ! j] @ drop (j + 1) xs"
      using e by simp
    also have "\<dots> = xs"
      using "1.prems" by (simp add: Cons_nth_drop_Suc)
    finally show ?thesis
      using False by (subst inner_loop.simps) simp
  next
    case True
    let ?a = "xs ! j" and ?b = "xs ! (j + 1)"
    let ?ys = "swap_step xs j"
    let ?pair = "if tx_UrgencyDegree ?a < tx_UrgencyDegree ?b then [?b, ?a] else [?a, ?b]"
    have j1: "j + 1 < ?n" using True by simp
    have ys: "?ys = take j xs @ ?pair @ drop (j + 2) xs"
      using swap_step_decomp [OF j1] by simp
    have len: "length ?ys = ?n" by (simp add: length_swap_step)
    have lt: "min (length xs) j = j" using j1 by simp
    have take_ys: "take (j + 1) ?ys = take j xs @ [hd ?pair]"
      by (subst ys) (simp add: lt)
    have drop_ys: "drop (j + 1) ?ys = tl ?pair @ drop (j + 2) xs"
      by (subst ys) (simp add: lt)
    have drop_n: "drop (?n - i) ?ys = drop (?n - i) xs"
    proof -
      have "?n - i = j + 2 + (?n - i - j - 2)" using True by simp
      then obtain d where d: "?n - i = j + 2 + d" ..
      have "drop (j + 2 + d) ?ys = drop d (drop (j + 2) ?ys)" by (simp add: add.commute)
      also have "drop (j + 2) ?ys = drop (j + 2) xs"
        by (subst ys) (simp add: lt)
      also have "drop d (drop (j + 2) xs) = drop (j + 2 + d) xs" by (simp add: add.commute)
      finally show ?thesis using d by simp
    qed
    have dj: "drop j xs = ?a # ?b # drop (j + 2) xs"
      using j1 by (simp add: Cons_nth_drop_Suc)
    have cnt: "?n - i - j = Suc (Suc (?n - i - j - 2))" using True by simp
    have lhs: "inner_loop xs i j = inner_loop ?ys i (j + 1)"
      using True by (subst inner_loop.simps) simp
    have "inner_loop ?ys i (j + 1)
        = take (j + 1) ?ys @ bubble_pass (take (length ?ys - i - (j + 1)) (drop (j + 1) ?ys))
            @ drop (length ?ys - i) ?ys"
      using "1.IH" [OF True] True len by simp
    then have step: "inner_loop ?ys i (j + 1) = take j xs @ hd ?pair
          # bubble_pass (take (?n - i - j - 1) (tl ?pair @ drop (j + 2) xs)) @ drop (?n - i) xs"
      using take_ys drop_ys drop_n len by simp
    have c1: "?n - i - j - 1 = Suc (?n - i - j - 2)" using True by simp
    have "bubble_pass (take (?n - i - j) (drop j xs))
        = hd ?pair # bubble_pass (take (?n - i - j - 1) (tl ?pair @ drop (j + 2) xs))"
      by (subst dj, subst cnt, subst c1) simp
    then show ?thesis using lhs step by simp
  qed
qed

lemma inner_loop_0:
  "i + 1 \<le> length xs \<Longrightarrow>
     inner_loop xs i 0 = bubble_pass (take (length xs - i) xs) @ drop (length xs - i) xs"
  using inner_loop_bubble_pass [of 0 i xs] by simp

lemma mset_inner_loop_0: "i + 1 \<le> length xs \<Longrightarrow> mset (inner_loop xs i 0) = mset xs"
proof -
  assume "i + 1 \<le> length xs"
  then have "mset (inner_loop xs i 0)
      = mset (take (length xs - i) xs) + mset (drop (length xs - i) xs)"
    by (simp add: inner_loop_0 mset_bubble_pass)
  also have "\<dots> = mset (take (length xs - i) xs @ drop (length xs - i) xs)"
    by (simp only: mset_append)
  finally show ?thesis by (simp only: append_take_drop_id)
qed

lemma filter_inner_loop_0:
  assumes "i + 1 \<le> length xs"
  shows "filter (\<lambda>x. tx_UrgencyDegree x = v) (inner_loop xs i 0)
           = filter (\<lambda>x. tx_UrgencyDegree x = v) xs"
proof -
  have "filter (\<lambda>x. tx_UrgencyDegree x = v) (inner_loop xs i 0)
      = filter (\<lambda>x. tx_UrgencyDegree x = v) (take (length xs - i) xs)
        @ filter (\<lambda>x. tx_UrgencyDegree x = v) (drop (length xs - i) xs)"
    using assms by (simp add: inner_loop_0 filter_bubble_pass)
  also have "\<dots> = filter (\<lambda>x. tx_UrgencyDegree x = v)
                      (take (length xs - i) xs @ drop (length xs - i) xs)"
    by (simp only: filter_append)
  finally show ?thesis by (simp only: append_take_drop_id)
qed

lemma mset_outer_loop: "mset (outer_loop xs i) = mset xs"
proof (induction xs i rule: outer_loop.induct)
  case (1 xs i)
  show ?case
  proof (cases "i + 1 < length xs")
    case True
    then have "outer_loop xs i = outer_loop (inner_loop xs i 0) (i + 1)"
      by (subst outer_loop.simps) simp
    then show ?thesis
      using "1.IH" [OF True] True by (simp add: mset_inner_loop_0)
  next
    case False
    then show ?thesis by (subst outer_loop.simps) simp
  qed
qed

lemma filter_outer_loop:
  "filter (\<lambda>x. tx_UrgencyDegree x = v) (outer_loop xs i) = filter (\<lambda>x. tx_UrgencyDegree x = v) xs"
proof (induction xs i rule: outer_loop.induct)
  case (1 xs i)
  show ?case
  proof (cases "i + 1 < length xs")
    case True
    then have "outer_loop xs i = outer_loop (inner_loop xs i 0) (i + 1)"
      by (subst outer_loop.simps) simp
    then show ?thesis
      using "1.IH" [OF True] True by (simp add: filter_inner_loop_0)
  next
    case False
    then show ?thesis by (subst outer_loop.simps) simp
  qed
qed

lemma length_outer_loop: "length (outer_loop xs i) = length xs"
  using mset_outer_loop [of xs i] by (metis size_mset)

lemma outer_inv_step:
  assumes lt: "i + 1 < length xs" and inv: "outer_inv xs i"
  shows "outer_inv (inner_loop xs i 0) (i + 1)"
proof -
  let ?n = "length xs"
  let ?P = "take (?n - i) xs" and ?S = "drop (?n - i) xs"
  let ?B = "bubble_pass ?P"
  have ys: "inner_loop xs i 0 = ?B @ ?S"
    using lt by (simp add: inner_loop_0)
  have lenP: "length ?P = ?n - i" using lt by simp
  have lenB: "length ?B = ?n - i" by (simp add: length_bubble_pass lenP)
  have Pne: "?P \<noteq> []" using lt by auto
  have Bne: "?B \<noteq> []" using lenB lt by auto
  have B: "?B = butlast ?B @ [last ?B]" using Bne by simp
  have setB: "set ?B = set ?P"
    using mset_bubble_pass [of ?P] by (metis set_mset_mset)
  have lenbl: "length (butlast ?B) = ?n - (i + 1)" using lenB by simp
  have whole: "inner_loop xs i 0 = butlast ?B @ last ?B # ?S"
    using ys B by (metis append.assoc append_Cons append_Nil)
  have len: "length (inner_loop xs i 0) = ?n" by (simp add: length_inner_loop)
  have tk: "take (?n - (i + 1)) (inner_loop xs i 0) = butlast ?B"
    using whole lenbl by (metis append_eq_conv_conj)
  have dr: "drop (?n - (i + 1)) (inner_loop xs i 0) = last ?B # ?S"
    using whole lenbl by (metis append_eq_conv_conj)
  have lastP: "last ?B \<in> set ?P" using Bne setB last_in_set by blast
  have min: "tx_UrgencyDegree (last ?B) \<le> tx_UrgencyDegree x" if "x \<in> set ?P" for x
    using last_bubble_pass_min [OF Pne that] .
  have below: "tx_UrgencyDegree y \<le> tx_UrgencyDegree x" if "x \<in> set ?P" "y \<in> set ?S" for x y
    using inv that by (auto simp: outer_inv_def)
  have d: "desc (last ?B # ?S)"
    using inv below [OF lastP] by (auto simp: desc_def outer_inv_def)
  have "tx_UrgencyDegree y \<le> tx_UrgencyDegree x"
    if "x \<in> set (butlast ?B)" "y \<in> set (last ?B # ?S)" for x y
  proof -
    from that(1) have xP: "x \<in> set ?P" using setB by (metis in_set_butlastD)
    from that(2) show ?thesis using min [OF xP] below [OF xP] by auto
  qed
  then show ?thesis
    unfolding outer_inv_def len tk dr using d by blast
qed

lemma outer_loop_desc:
  "i + 1 \<le> length xs \<Longrightarrow> outer_inv xs i \<Longrightarrow> desc (outer_loop xs i)"
proof (induction xs i rule: outer_loop.induct)
  case (1 xs i)
  show ?case
  proof (cases "i + 1 < length xs")
    case True
    have e: "outer_loop xs i = outer_loop (inner_loop xs i 0) (i + 1)"
      using True by (subst outer_loop.simps) simp
    have "desc (outer_loop (inner_loop xs i 0) (i + 1))"
      using "1.IH" [OF True] True outer_inv_step [OF True "1.prems"(2)]
      by (simp add: length_inner_loop)
    then show ?thesis using e by simp
  next
    case False
    with "1.prems" have i: "length xs - i = 1" by simp
    have xs: "xs = take 1 xs @ drop 1 xs" by simp
    have "desc (take 1 xs @ drop 1 xs)"
      using "1.prems"(2) unfolding outer_inv_def desc_def i
      by (simp only: sorted_wrt_append) (auto simp: take_Suc_conv_app_nth sorted_wrt01)
    then have "desc xs" by simp
    then show ?thesis using False by (subst outer_loop.simps) simp
  qed
qed

lemma outer_loop_sort_key:
  "outer_loop pool 0 = sort_key (\<lambda>tx. - tx_UrgencyDegree tx) pool"
proof (cases "pool = []")
  case True
  then show ?thesis by (subst outer_loop.simps) simp
next
  case False
  then have "outer_inv pool 0" by (simp add: outer_inv_def desc_def)
  moreover from False have "0 + 1 \<le> length pool" by (cases pool) auto
  ultimately have "desc (outer_loop pool 0)" by (rule outer_loop_desc [rotated])
  then have s: "sorted (map (\<lambda>tx. - tx_UrgencyDegree tx) (outer_loop pool 0))"
    by (simp add: desc_def sorted_map)
  have c: "filter (\<lambda>x. tx_UrgencyDegree k = tx_UrgencyDegree x) zs
      = filter (\<lambda>x. tx_UrgencyDegree x = tx_UrgencyDegree k) zs" for k zs
    by (rule filter_cong) auto
  have f: "filter (\<lambda>x. tx_UrgencyDegree k = tx_UrgencyDegree x) (outer_loop pool 0)
      = filter (\<lambda>x. tx_UrgencyDegree k = tx_UrgencyDegree x) pool" for k
    using filter_outer_loop [of "tx_UrgencyDegree k" pool 0] by (simp only: c)
  show ?thesis
    by (rule properties_for_sort_key [symmetric]) (simp_all add: mset_outer_loop f s)
qed

lemma toRemove_foldl:
  "foldl (\<lambda>m tx. m(tx_ID tx := True)) m txs s \<longleftrightarrow> m s \<or> s \<in> tx_ID ` set txs"
  by (induction txs arbitrary: m) auto

lemma toRemove_iff: "toRemove txs s \<longleftrightarrow> s \<in> tx_ID ` set txs"
  by (simp add: toRemove_def toRemove_foldl)

lemma RemoveTransactions_filter:
  "RemoveTransactions pool txs = filter (\<lambda>tx. tx_ID tx \<notin> tx_ID ` set txs) pool"
  by (simp add: RemoveTransactions_def toRemove_iff)

lemma GetTopKTransactions_sort_key:
  assumes "0 \<le> k"
  shows "GetTopKTransactions pool k =
           Inr (take (nat k) (sort_key (\<lambda>tx. - tx_UrgencyDegree tx) pool),
                RemoveTransactions pool
                  (take (nat k) (sort_key (\<lambda>tx. - tx_UrgencyDegree tx) pool)))"
proof (cases "pool = []")
  case True
  then show ?thesis by (simp add: GetTopKTransactions_def RemoveTransactions_def)
next
  case False
  let ?s = "sort_key (\<lambda>tx. - tx_UrgencyDegree tx) pool"
  have len: "length ?s = length pool" by simp
  have "take (nat (if k > int (length ?s) then int (length ?s) else k)) ?s = take (nat k) ?s"
    by (cases "k > int (length ?s)") auto
  then show ?thesis
    using False assms
    by (simp add: GetTopKTransactions_def outer_loop_sort_key Let_def)
qed

lemma removed_count:
  assumes d: "distinct (map tx_ID pool)" and m: "mset srt = mset pool"
  shows "length (filter (\<lambda>tx. tx_ID tx \<notin> tx_ID ` set (take n srt)) pool)
           = length pool - length (take n srt)"
proof -
  let ?R = "take n srt" and ?Q = "drop n srt"
  let ?P = "\<lambda>tx. tx_ID tx \<notin> tx_ID ` set ?R"
  have "mset (map tx_ID srt) = mset (map tx_ID pool)"
    using m by (metis mset_map)
  then have ds: "distinct (map tx_ID srt)"
    using d by (metis mset_eq_imp_distinct_iff)
  have "map tx_ID srt = map tx_ID ?R @ map tx_ID ?Q"
    by (metis append_take_drop_id map_append)
  with ds have disj: "tx_ID ` set ?R \<inter> tx_ID ` set ?Q = {}"
    by (metis distinct_append list.set_map)
  have fR: "filter ?P ?R = []" by (auto simp: filter_empty_conv)
  have fQ: "filter ?P ?Q = ?Q" using disj by (auto simp: filter_id_conv)
  have "mset pool = mset (?R @ ?Q)" using m by simp
  then have "mset (filter ?P pool) = mset (filter ?P (?R @ ?Q))"
    by (metis mset_filter)
  then have "length (filter ?P pool) = length (filter ?P (?R @ ?Q))"
    by (metis size_mset)
  also have "\<dots> = length ?Q" by (simp only: filter_append fR fQ append_Nil)
  also have "\<dots> = length srt - length ?R" by simp
  also have "length srt = length pool" using m by (metis size_mset)
  finally show ?thesis .
qed

subsection \<open>Priority mempool\<close>

text \<open>
  C3, as stated, fails on a tie: two pooled transactions of equal urgency come back in
  pool order, the later arrival first.
\<close>

theorem drain_tie_counterexample:
  "GetTopKTransactions [tie_late, tie_early] 2 = Inr ([tie_late, tie_early], [])
   \<and> \<not> sorted_wrt claimed_order [tie_late, tie_early]"
  by (simp add: GetTopKTransactions_sort_key RemoveTransactions_filter claimed_order_def
      tie_late_def tie_early_def)

text \<open>
  C3 (amended): for every pool and every \<open>k \<ge> 0\<close>, \<open>GetTopKTransactions\<close> returns the
  first \<open>k\<close> elements of the stable sort of the pool by descending urgency
  (\<open>sort_key\<close> is stable: transactions of equal urgency keep their pool order), which are
  \<open>min k (size before)\<close> transactions in non-increasing urgency; and when the pooled ids
  are distinct the pool shrinks by exactly the number of transactions returned.
\<close>

theorem drain_top_k:
  "0 \<le> k \<Longrightarrow>
     (\<exists>result pool'.
        GetTopKTransactions pool k = Inr (result, pool')
        \<and> result = take (nat k) (sort_key (\<lambda>tx. - tx_UrgencyDegree tx) pool)
        \<and> length result = min (nat k) (length pool)
        \<and> sorted_wrt (\<lambda>a b. tx_UrgencyDegree b \<le> tx_UrgencyDegree a) result
        \<and> (distinct (map tx_ID pool) \<longrightarrow> length pool' = length pool - length result))"
proof -
  assume k: "0 \<le> k"
  let ?s = "sort_key (\<lambda>tx. - tx_UrgencyDegree tx) pool"
  let ?r = "take (nat k) ?s"
  have "sorted (map (\<lambda>tx. - tx_UrgencyDegree tx) ?s)" by simp
  then have "sorted_wrt (\<lambda>a b. tx_UrgencyDegree b \<le> tx_UrgencyDegree a) ?s"
    by (simp add: sorted_map)
  then have srt: "sorted_wrt (\<lambda>a b. tx_UrgencyDegree b \<le> tx_UrgencyDegree a) ?r"
    by (rule sorted_wrt_take)
  have len: "length ?r = min (nat k) (length pool)" by simp
  have cnt: "distinct (map tx_ID pool) \<longrightarrow>
      length (RemoveTransactions pool ?r) = length pool - length ?r"
    using removed_count [of pool ?s "nat k"] by (simp add: RemoveTransactions_filter)
  show ?thesis
    using GetTopKTransactions_sort_key [OF k, of pool] srt len cnt by blast
qed

theorem drain_top_k_witness:
  "\<exists>result pool'.
     GetTopKTransactions [tie_late, tie_early] 1 = Inr (result, pool')
     \<and> result = [tie_late] \<and> length pool' = 1"
proof -
  have d: "distinct (map tx_ID [tie_late, tie_early])"
    by (simp add: tie_late_def tie_early_def)
  have s: "take (nat 1) (sort_key (\<lambda>tx. - tx_UrgencyDegree tx) [tie_late, tie_early]) = [tie_late]"
    by (simp add: tie_late_def tie_early_def)
  show ?thesis
    using drain_top_k [of 1 "[tie_late, tie_early]"] d unfolding s by auto
qed

text \<open>
  C10: the pool left by \<open>GetTopKTransactions\<close> is the old pool without every
  transaction whose id is the id of a returned one; with distinct ids it is shorter by
  exactly the number returned, and with a repeated id it can be shorter by more.
\<close>

theorem removal_by_id:
  "(GetTopKTransactions pool k = Inr (result, pool') \<longrightarrow>
      pool' = filter (\<lambda>tx. tx_ID tx \<notin> tx_ID ` set result) pool
      \<and> (distinct (map tx_ID pool) \<longrightarrow> length pool' = length pool - length result))
   \<and> (\<exists>p r p'. GetTopKTransactions p 1 = Inr (r, p') \<and> length p' < length p - length r)"
proof (intro conjI impI)
  assume g: "GetTopKTransactions pool k = Inr (result, pool')"
  have k: "0 \<le> k \<or> pool = []"
    using g by (auto simp: GetTopKTransactions_def Let_def split: if_splits)
  let ?s = "sort_key (\<lambda>tx. - tx_UrgencyDegree tx) pool"
  have e: "result = take (nat k) ?s \<and> pool' = RemoveTransactions pool result"
  proof (cases "pool = []")
    case True
    then show ?thesis using g by (simp add: GetTopKTransactions_def RemoveTransactions_def)
  next
    case False
    with k have "0 \<le> k" by simp
    from GetTopKTransactions_sort_key [OF this, of pool] g show ?thesis by simp
  qed
  then show "pool' = filter (\<lambda>tx. tx_ID tx \<notin> tx_ID ` set result) pool"
    by (simp add: RemoveTransactions_filter)
  assume "distinct (map tx_ID pool)"
  then show "length pool' = length pool - length result"
    using e removed_count [of pool ?s "nat k"] by (simp add: RemoveTransactions_filter)
next
  have "GetTopKTransactions [tie_late, tie_twin] 1 = Inr ([tie_late], [])"
    by (simp add: GetTopKTransactions_sort_key RemoveTransactions_filter
        tie_late_def tie_early_def tie_twin_def)
  then have "GetTopKTransactions [tie_late, tie_twin] 1 = Inr ([tie_late], [])
      \<and> length ([] :: EmergencyTransaction list) < length [tie_late, tie_twin] - length [tie_late]"
    by simp
  then show "\<exists>p r p'. GetTopKTransactions p 1 = Inr (r, p') \<and> length p' < length p - length r"
    by blast
qed

theorem removal_by_id_witness:
  "GetTopKTransactions [tie_early, tie_late] 1 = Inr ([tie_early], [tie_late])
   \<and> length [tie_late] = length [tie_early, tie_late] - length [tie_early]"
proof -
  have g: "GetTopKTransactions [tie_early, tie_late] 1 = Inr ([tie_early], [tie_late])"
    by (simp add: GetTopKTransactions_sort_key RemoveTransactions_filter
        tie_late_def tie_early_def)
  have d: "distinct (map tx_ID [tie_early, tie_late])"
    by (simp add: tie_late_def tie_early_def)
  show ?thesis
    using g d removal_by_id [of "[tie_early, tie_late]" 1 "[tie_early]" "[tie_late]"]
    by blast
qed

subsection \<open>Announce handling\<close>

text \<open>
  C9: a node that is not flagged as validator ignores an Announce (PrePrepare): state
  unchanged, nothing sent. A validator whose \<open>VerifyBlock\<close> rejects the block drops the
  message: state (chain and vote tables included) unchanged, nothing sent. A validator
  whose \<open>VerifyBlock\<close> accepts the block stores the announcement under the block hash,
  changes nothing else, and sends one Endorse (Prepare) for the block, from itself, to
  every peer that is another node and is a validator.
\<close>

theorem handlePrePrepare_cases:
  "(\<not> IsValidator en \<longrightarrow> handlePrePrepare lib clock en msg = Inr (en, []))
   \<and> (IsValidator en \<and> VerifyBlock lib (Blockchain en) (Block msg) = Inr False \<longrightarrow>
        handlePrePrepare lib clock en msg = Inr (en, []))
   \<and> (IsValidator en \<and> VerifyBlock lib (Blockchain en) (Block msg) = Inr True \<longrightarrow>
        (\<exists>en'. handlePrePrepare lib clock en msg =
                 Inr (en', map (\<lambda>peer. (peer_ID peer,
                                 \<lparr>Type = Prepare, BlockHash = BlockHash msg, Block = Block msg,
                                  msg_From = node_ID en, msg_Timestamp = clock\<rparr>))
                            (filter (\<lambda>peer. peer_ID peer \<noteq> node_ID en \<and> peer_IsValidator peer)
                               (Peers en)))
           \<and> map_of (prePrepareReceived en') (BlockHash msg) = Some msg
           \<and> en' = en\<lparr>prePrepareReceived := prePrepareReceived en'\<rparr>))"
  by (auto simp: handlePrePrepare_def BroadcastToValidators_def Let_def update_conv')

lemma VerifyBlock_block1: "VerifyBlock toy_lib ebc0 block1 = Inr True"
  by (simp add: VerifyBlock_def GetLatestBlock_ebc0 block1_eval genesisBlock_def int64_id
      CalculateMerkleRoot_def CalculateTotalUrgency_def CalculateHash_def toy_lib_def tx0_def)

lemma VerifyBlock_bad: "VerifyBlock toy_lib ebc0 (block1\<lparr>PrevHash := ''bogus''\<rparr>) = Inr False"
  by (simp add: VerifyBlock_def GetLatestBlock_ebc0 block1_eval genesisBlock_def int64_id)

theorem handlePrePrepare_cases_witness:
  "handlePrePrepare toy_lib 7 (node1\<lparr>IsValidator := False\<rparr>) (announce block1)
     = Inr (node1\<lparr>IsValidator := False\<rparr>, [])
   \<and> handlePrePrepare toy_lib 7 node1 (announce (block1\<lparr>PrevHash := ''bogus''\<rparr>)) = Inr (node1, [])
   \<and> (\<exists>en'. handlePrePrepare toy_lib 7 node1 (announce block1) =
         Inr (en', [(''n2'', \<lparr>Type = Prepare, BlockHash = Hash block1, Block = block1,
                             msg_From = ''n1'', msg_Timestamp = 7\<rparr>),
                    (''n4'', \<lparr>Type = Prepare, BlockHash = Hash block1, Block = block1,
                             msg_From = ''n1'', msg_Timestamp = 7\<rparr>),
                    (''n5'', \<lparr>Type = Prepare, BlockHash = Hash block1, Block = block1,
                             msg_From = ''n1'', msg_Timestamp = 7\<rparr>)])
         \<and> map_of (prePrepareReceived en') (Hash block1) = Some (announce block1))"
proof -
  have a: "\<not> IsValidator (node1\<lparr>IsValidator := False\<rparr>)" by simp
  have b: "IsValidator node1
      \<and> VerifyBlock toy_lib (Blockchain node1) (Block (announce (block1\<lparr>PrevHash := ''bogus''\<rparr>)))
          = Inr False"
    using VerifyBlock_bad by (simp add: node1_def announce_def)
  have c: "IsValidator node1
      \<and> VerifyBlock toy_lib (Blockchain node1) (Block (announce block1)) = Inr True"
    using VerifyBlock_block1 by (simp add: node1_def announce_def)
  have p: "filter (\<lambda>peer. peer_ID peer \<noteq> ''n1'' \<and> peer_IsValidator peer) (Peers node1)
      = [\<lparr>peer_ID = ''n2'', peer_IsValidator = True\<rparr>, \<lparr>peer_ID = ''n4'', peer_IsValidator = True\<rparr>,
         \<lparr>peer_ID = ''n5'', peer_IsValidator = True\<rparr>]"
    by (simp add: node1_def)
  have f: "BlockHash (announce block1) = Hash block1" "Block (announce block1) = block1"
      "node_ID node1 = ''n1''"
    by (simp_all add: announce_def node1_def)
  from handlePrePrepare_cases [of "node1\<lparr>IsValidator := False\<rparr>" toy_lib 7 "announce block1"] a
  have s1: "handlePrePrepare toy_lib 7 (node1\<lparr>IsValidator := False\<rparr>) (announce block1)
     = Inr (node1\<lparr>IsValidator := False\<rparr>, [])" by blast
  from handlePrePrepare_cases [of node1 toy_lib 7 "announce (block1\<lparr>PrevHash := ''bogus''\<rparr>)"] b
  have s2: "handlePrePrepare toy_lib 7 node1 (announce (block1\<lparr>PrevHash := ''bogus''\<rparr>))
     = Inr (node1, [])" by blast
  from handlePrePrepare_cases [of node1 toy_lib 7 "announce block1"] c
  have s3: "\<exists>en'. handlePrePrepare toy_lib 7 node1 (announce block1) =
         Inr (en', [(''n2'', \<lparr>Type = Prepare, BlockHash = Hash block1, Block = block1,
                             msg_From = ''n1'', msg_Timestamp = 7\<rparr>),
                    (''n4'', \<lparr>Type = Prepare, BlockHash = Hash block1, Block = block1,
                             msg_From = ''n1'', msg_Timestamp = 7\<rparr>),
                    (''n5'', \<lparr>Type = Prepare, BlockHash = Hash block1, Block = block1,
                             msg_From = ''n1'', msg_Timestamp = 7\<rparr>)])
         \<and> map_of (prePrepareReceived en') (Hash block1) = Some (announce block1)"
    by (auto simp: f p)
  from s1 s2 s3 show ?thesis by blast
qed

subsection \<open>Commit handling and the chain\<close>

lemma recordEmergencyInteractions_fields:
  "Blockchain (recordEmergencyInteractions clock rnd en b) = Blockchain en
   \<and> ValidatorGroup (recordEmergencyInteractions clock rnd en b) = ValidatorGroup en
   \<and> commitVotes (recordEmergencyInteractions clock rnd en b) = commitVotes en
   \<and> IsValidator (recordEmergencyInteractions clock rnd en b) = IsValidator en"
proof -
  have "Blockchain (foldl (\<lambda>en i. en\<lparr>ReputationManager := g en i\<rparr>) en ns) = Blockchain en
      \<and> ValidatorGroup (foldl (\<lambda>en i. en\<lparr>ReputationManager := g en i\<rparr>) en ns) = ValidatorGroup en
      \<and> commitVotes (foldl (\<lambda>en i. en\<lparr>ReputationManager := g en i\<rparr>) en ns) = commitVotes en
      \<and> IsValidator (foldl (\<lambda>en i. en\<lparr>ReputationManager := g en i\<rparr>) en ns) = IsValidator en"
    for g and ns :: "nat list"
    by (induction ns arbitrary: en) auto
  then show ?thesis
    by (simp add: recordEmergencyInteractions_def Let_def)
qed

lemma handleCommit_effect:
  "Chain (Blockchain (handleCommit clock rnd en msg))
     = (if commit_reached en msg then Chain (Blockchain en) @ [Block msg] else Chain (Blockchain en))
   \<and> commitVotes (handleCommit clock rnd en msg)
     = (if commit_reached en msg
        then AList.delete (BlockHash msg) (record_vote (commitVotes en) (BlockHash msg) (msg_From msg))
        else record_vote (commitVotes en) (BlockHash msg) (msg_From msg))
   \<and> ValidatorGroup (handleCommit clock rnd en msg) = ValidatorGroup en"
  by (simp add: handleCommit_def Let_def commit_reached_def recordEmergencyInteractions_fields
      AddBlock_def)

lemma required: "2 * go_quot (GetSize vg4 - 1) 3 + 1 = 3"
  by (simp add: go_quot_def GetSize_def vg4_def)

lemma step_no:
  assumes "ValidatorGroup en = vg4" "commitVotes en = vs"
    "length (inner_of (record_vote vs (Hash block1) s) (Hash block1)) < 3"
  shows "Chain (Blockchain (handleCommit clock rnd en (commit_from s))) = Chain (Blockchain en)
    \<and> commitVotes (handleCommit clock rnd en (commit_from s)) = record_vote vs (Hash block1) s
    \<and> ValidatorGroup (handleCommit clock rnd en (commit_from s)) = vg4"
  using assms handleCommit_effect [of clock rnd en "commit_from s"]
  by (simp add: commit_reached_def required commit_from_def)

lemma step_yes:
  assumes "ValidatorGroup en = vg4" "commitVotes en = vs"
    "3 \<le> length (inner_of (record_vote vs (Hash block1) s) (Hash block1))"
  shows "Chain (Blockchain (handleCommit clock rnd en (commit_from s))) = Chain (Blockchain en) @ [block1]
    \<and> commitVotes (handleCommit clock rnd en (commit_from s))
        = AList.delete (Hash block1) (record_vote vs (Hash block1) s)
    \<and> ValidatorGroup (handleCommit clock rnd en (commit_from s)) = vg4"
  using assms handleCommit_effect [of clock rnd en "commit_from s"]
  by (simp add: commit_reached_def required commit_from_def)

lemma three_commits:
  assumes "ValidatorGroup en = vg4" "commitVotes en = []"
  shows "Chain (Blockchain (foldl (handleCommit clock rnd) en
            [commit_from ''n2'', commit_from ''n4'', commit_from ''n5'']))
          = Chain (Blockchain en) @ [block1]
    \<and> commitVotes (foldl (handleCommit clock rnd) en
            [commit_from ''n2'', commit_from ''n4'', commit_from ''n5'']) = []
    \<and> ValidatorGroup (foldl (handleCommit clock rnd) en
            [commit_from ''n2'', commit_from ''n4'', commit_from ''n5'']) = vg4"
proof -
  let ?h = "Hash block1"
  let ?e1 = "handleCommit clock rnd en (commit_from ''n2'')"
  let ?e2 = "handleCommit clock rnd ?e1 (commit_from ''n4'')"
  let ?e3 = "handleCommit clock rnd ?e2 (commit_from ''n5'')"
  have v1: "record_vote [] ?h ''n2'' = [(?h, [(''n2'', True)])]"
    by (simp add: record_vote_def inner_of_def)
  have v2: "record_vote [(?h, [(''n2'', True)])] ?h ''n4'' = [(?h, [(''n2'', True), (''n4'', True)])]"
    by (simp add: record_vote_def inner_of_def)
  have v3: "record_vote [(?h, [(''n2'', True), (''n4'', True)])] ?h ''n5''
      = [(?h, [(''n2'', True), (''n4'', True), (''n5'', True)])]"
    by (simp add: record_vote_def inner_of_def)
  have s1: "Chain (Blockchain ?e1) = Chain (Blockchain en)
      \<and> commitVotes ?e1 = [(?h, [(''n2'', True)])] \<and> ValidatorGroup ?e1 = vg4"
    using step_no [OF assms, of "''n2''" clock rnd] by (simp add: v1 inner_of_def)
  have s2: "Chain (Blockchain ?e2) = Chain (Blockchain en)
      \<and> commitVotes ?e2 = [(?h, [(''n2'', True), (''n4'', True)])] \<and> ValidatorGroup ?e2 = vg4"
    using step_no [of ?e1 "[(?h, [(''n2'', True)])]" "''n4''" clock rnd] s1
    by (simp add: v2 inner_of_def)
  have s3: "Chain (Blockchain ?e3) = Chain (Blockchain en) @ [block1]
      \<and> commitVotes ?e3 = [] \<and> ValidatorGroup ?e3 = vg4"
    using step_yes [of ?e2 "[(?h, [(''n2'', True), (''n4'', True)])]" "''n5''" clock rnd] s2
    by (simp add: v3 inner_of_def)
  show ?thesis using s3 by simp
qed

text \<open>
  C5 at a failing input: node \<open>n1\<close> of a committee of four holds the genesis block and
  receives the Commit votes of \<open>n2\<close>, \<open>n4\<close>, \<open>n5\<close> for the valid block \<open>block1\<close>,
  each twice (a validator broadcasts its Commit at every Endorse it receives beyond the
  threshold). The third vote appends the block and clears the tally; the second round of
  votes reaches the threshold again and appends the same block again. In the chain that
  results, the third block does not point to the second.
\<close>

theorem commit_replay_breaks_link:
  "Chain (Blockchain (foldl (handleCommit 0 (\<lambda>i. 0)) node1
      [commit_from ''n2'', commit_from ''n4'', commit_from ''n5'',
       commit_from ''n2'', commit_from ''n4'', commit_from ''n5'']))
     = [genesisBlock 0, block1, block1]
   \<and> PrevHash block1 \<noteq> Hash block1
   \<and> Index block1 \<noteq> int64 (Index block1 + 1)"
proof -
  let ?ms = "[commit_from ''n2'', commit_from ''n4'', commit_from ''n5'']"
  let ?mid = "foldl (handleCommit 0 (\<lambda>i. 0)) node1 ?ms"
  have a: "ValidatorGroup node1 = vg4" "commitVotes node1 = []"
    by (simp_all add: node1_def)
  have c0: "Chain (Blockchain node1) = [genesisBlock 0]"
    by (simp add: node1_def ebc0_def NewEmergencyBlockchain_def)
  from three_commits [OF a, of 0 "\<lambda>i. 0"]
  have m: "Chain (Blockchain ?mid) = [genesisBlock 0, block1]"
    "commitVotes ?mid = []" "ValidatorGroup ?mid = vg4"
    using c0 by simp_all
  from three_commits [OF m(3) m(2), of 0 "\<lambda>i. 0"]
  have "Chain (Blockchain (foldl (handleCommit 0 (\<lambda>i. 0)) ?mid ?ms)) = [genesisBlock 0, block1, block1]"
    using m(1) by simp
  moreover have "foldl (handleCommit 0 (\<lambda>i. 0)) ?mid ?ms
      = foldl (handleCommit 0 (\<lambda>i. 0)) node1 (?ms @ ?ms)"
    by (simp only: foldl_append)
  moreover have "PrevHash block1 \<noteq> Hash block1 \<and> Index block1 \<noteq> int64 (Index block1 + 1)"
    by (simp add: block1_eval int64_id)
  ultimately show ?thesis by simp
qed

subsection \<open>Reputation engine: helper facts\<close>

lemma theta_of_zero: "b \<noteq> 0 \<Longrightarrow> theta_of c (Fin 0) (Fin b) = Fin (Mu c / 2)"
  by (simp add: theta_of_def fne_def Overflow_def Underflow_def)

lemma dom_aggregate_step:
  "dom (map_of (aggregate_step agg intr)) = insert (To intr) (dom (map_of agg))"
  by (simp add: aggregate_step_def Let_def update_conv' split: option.split)

lemma dom_foldl_aggregate:
  "dom (map_of (foldl aggregate_step agg xs)) = dom (map_of agg) \<union> To ` set xs"
  by (induction xs arbitrary: agg) (auto simp: dom_aggregate_step)

lemma dom_aggregateByPair: "dom (map_of (aggregateByPair rm)) = To ` set (interactions rm)"
  by (simp add: aggregateByPair_def dom_foldl_aggregate)

lemma no_inbound_iff:
  "map_of (aggregateByPair rm) target = None \<longleftrightarrow> target \<notin> To ` set (interactions rm)"
  using dom_aggregateByPair [of rm] by (metis domIff)


lemma eventCount_report: "0 \<le> p \<Longrightarrow> p < 2 ^ 62 \<Longrightarrow> eventCount (report f t p 0) = real_of_int p"
  by (simp add: eventCount_def report_def int64_id)

lemma report_fields:
  "PosEvents (report f t p n) = p" "NegEvents (report f t p n) = n"
  "TrajUser (report f t p n) = []" "TrajProvider (report f t p n) = []"
  "TxType (report f t p n) = NormalTransaction" "int_UrgencyDegree (report f t p n) = 0"
  "int_Timestamp (report f t p n) = 0" "To (report f t p n) = t" "int_From (report f t p n) = f"
  by (simp_all add: report_def)

lemma cfg1_fields:
  "Rho1 (cfg (rm_of es)) = 1 / 3" "Rho2 (cfg (rm_of es)) = 1 / 3" "Rho3 (cfg (rm_of es)) = 1 / 3"
  "Mu (cfg (rm_of es)) = 1" "Gamma (cfg (rm_of es)) = 1 / 2" "Eta (cfg (rm_of es)) = 1"
  by (simp_all add: rm_of_def cfg1_def)

lemma TIM_report: "TIM_of (cfg (rm_of es)) 0 (report f t p n) = 1"
  by (simp add: TIM_of_def Let_def report_fields cfg1_fields Seconds_def Sub_def minDuration_def
      maxDuration_def)

lemma similarity_empty: "computeTrajectorySimilarity rm [] [] = 0"
  by (simp add: computeTrajectorySimilarity_def cosineSimilarity_def Let_def)

lemma weight_report:
  assumes "0 < p" "p < 2 ^ 62"
  shows "weight_of (rm_of es) (real_of_int p) 0 (report f t p 0) = Fin (2 / 3)"
proof -
  have ec: "eventCount (report f t p 0) = real_of_int p"
    using assms by (simp add: eventCount_report)
  have Fi: "fdiv (Fin (real_of_int p)) (Fin (real_of_int p)) = Fin 1"
    using assms by simp
  show ?thesis
    using assms(1)
    by (simp add: weight_of_def Let_def ec Fi TIM_report similarity_empty report_fields
        cfg1_fields CalculateTransactionWeight_def NormalTxWeight_def)
qed

lemma avgCnt_report:
  "0 \<le> p \<Longrightarrow> p < 2 ^ 62 \<Longrightarrow> avgCnt_of [(f, report f t p 0)] = real_of_int p"
  by (simp add: avgCnt_of_def eventCount_report)

lemma direct_report:
  assumes "0 < p" "p < 2 ^ 62"
  shows "direct_for (rm_of es) 0 [(f, report f t p 0)]
     = [(f, \<lparr>Opinion = \<lparr>op_T = Fin (1 - 2 / (2 + real_of_int p)), op_D = Fin 0,
                         op_I = Fin (2 / (2 + real_of_int p))\<rparr>,
             Weight = Fin (2 / 3)\<rparr>)]"
proof -
  have p: "0 \<le> p" using assms by simp
  have th: "theta_of (cfg (rm_of es)) (Fin 0) (Fin (2 / 3)) = Fin (1 / 2)"
    by (simp add: theta_of_zero cfg1_fields)
  have i: "Ii_of (report f t p 0) = Fin (2 / (2 + real_of_int p))"
    using assms by (simp add: Ii_of_def eventCount_report)
  have f: "fill_opinion (Fin (1 / 2)) (report f t p 0)
              \<lparr>Opinion = \<lparr>op_T = Fin 0, op_D = Fin 0, op_I = Fin (2 / (2 + real_of_int p))\<rparr>,
               Weight = Fin (2 / 3)\<rparr>
      = \<lparr>Opinion = \<lparr>op_T = Fin (1 - 2 / (2 + real_of_int p)), op_D = Fin 0,
                     op_I = Fin (2 / (2 + real_of_int p))\<rparr>,
         Weight = Fin (2 / 3)\<rparr>"
    using assms by (simp add: fill_opinion_def Let_def fsub_def report_fields)
  show ?thesis
    by (simp add: direct_for_def Let_def avgCnt_report [OF p assms(2)]
        weight_report [OF assms] fsum_def report_fields th tmp_opinion_def i f)
qed

subsection \<open>Reputation engine: the logs evaluated\<close>

lemma agg_single: "aggregateByPair rm_single = [(''B'', [(''A'', report ''A'' ''B'' 1 0)])]"
  by (simp add: aggregateByPair_def rm_single_def rm_of_def aggregate_step_def inner_of_def
      report_fields)

lemma cfg_rm: "cfg rm_single = cfg (rm_of [])" "cfg rm_mutual = cfg (rm_of [])"
  "cfg rm_oneway = cfg (rm_of [])"
  by (simp_all add: rm_single_def rm_mutual_def rm_oneway_def rm_of_def)

lemma agg_mutual:
  "aggregateByPair rm_mutual
     = [(''T'', [(''S'', report ''S'' ''T'' 2 0)]), (''S'', [(''T'', report ''T'' ''S'' 2 0)])]"
  by (simp add: aggregateByPair_def rm_mutual_def rm_of_def aggregate_step_def inner_of_def
      report_fields)

lemma agg_oneway:
  "aggregateByPair rm_oneway
     = [(''T'', [(''X'', report ''X'' ''T'' 1 0)]), (''S'', [(''T'', report ''T'' ''S'' 1 0)])]"
  by (simp add: aggregateByPair_def rm_oneway_def rm_of_def aggregate_step_def inner_of_def
      report_fields)

lemma direct_single:
  "computeDirectOpinions rm_single [(''B'', [(''A'', report ''A'' ''B'' 1 0)])] 0
     = [(''B'', [(''A'', third_opinion)])]"
  using direct_report [of 1 "[report ''A'' ''B'' 1 0]" "''A''" "''B''"]
  by (simp add: computeDirectOpinions_def third_opinion_def rm_single_def [symmetric])

lemma direct_mutual:
  "computeDirectOpinions rm_mutual
     [(''T'', [(''S'', report ''S'' ''T'' 2 0)]), (''S'', [(''T'', report ''T'' ''S'' 2 0)])] 0
     = [(''T'', [(''S'', half_opinion)]), (''S'', [(''T'', half_opinion)])]"
  using direct_report [of 2 "[report ''S'' ''T'' 2 0, report ''T'' ''S'' 2 0]" "''S''" "''T''"]
    direct_report [of 2 "[report ''S'' ''T'' 2 0, report ''T'' ''S'' 2 0]" "''T''" "''S''"]
  by (simp add: computeDirectOpinions_def half_opinion_def rm_mutual_def [symmetric])

lemma direct_oneway:
  "computeDirectOpinions rm_oneway
     [(''T'', [(''X'', report ''X'' ''T'' 1 0)]), (''S'', [(''T'', report ''T'' ''S'' 1 0)])] 0
     = [(''T'', [(''X'', third_opinion)]), (''S'', [(''T'', third_opinion)])]"
  using direct_report [of 1 "[report ''X'' ''T'' 1 0, report ''T'' ''S'' 1 0]" "''X''" "''T''"]
    direct_report [of 1 "[report ''X'' ''T'' 1 0, report ''T'' ''S'' 1 0]" "''T''" "''S''"]
  by (simp add: computeDirectOpinions_def third_opinion_def rm_oneway_def [symmetric])

lemma inner_of_head: "inner_of ((k, v) # rest) k = v"
  by (simp add: inner_of_def)

lemma dfs_two:
  "a \<noteq> b \<Longrightarrow> dfs [(b, [(x, d1)]), (a, [(b, d2)])] b [a] = [[a, b]]"
  apply (subst dfs.simps)
  apply (simp add: hopCount_def inner_of_def)
  apply (subst dfs.simps)
  apply (simp add: hopCount_def inner_of_def)
  done

lemma indirect_single:
  "computeIndirectOpinions [(''B'', [(''A'', d)])] = [(''B'', [])]"
  by (simp add: computeIndirectOpinions_def indirect_for_def)

lemma indirect_mutual:
  "inner_of (computeIndirectOpinions [(''T'', [(''S'', half_opinion)]), (''S'', [(''T'', half_opinion)])]) ''T''
     = [(''S'', \<lparr>op_T = Fin (1 / 2), op_D = Fin 0, op_I = Fin (1 / 2)\<rparr>)]"
  by (simp add: computeIndirectOpinions_def indirect_for_def indirect_entry_def dfs_two
      accumulate_paths_def discount_path_def get_direct_def inner_of_def zeroOpinion_def
      half_opinion_def Let_def)

lemma indirect_oneway:
  "inner_of (computeIndirectOpinions [(''T'', [(''X'', third_opinion)]), (''S'', [(''T'', third_opinion)])]) ''T''
     = [(''S'', \<lparr>op_T = Fin 0, op_D = Fin 0, op_I = Fin 0\<rparr>)]"
  by (simp add: computeIndirectOpinions_def indirect_for_def indirect_entry_def dfs_two
      accumulate_paths_def discount_path_def get_direct_def inner_of_def zeroOpinion_def
      zeroDirectOpinion_def third_opinion_def Let_def)

lemma fused_mutual:
  "fuseOpinions [(''S'', half_opinion)] [(''S'', \<lparr>op_T = Fin (1 / 2), op_D = Fin 0, op_I = Fin (1 / 2)\<rparr>)]
     = \<lparr>op_T = Fin 1, op_D = Fin 0, op_I = Fin (1 / 2)\<rparr>"
  by (simp add: fuseOpinions_def fsum_def half_opinion_def Let_def)

lemma fused_oneway:
  "fuseOpinions [(''X'', third_opinion)] [(''S'', \<lparr>op_T = Fin 0, op_D = Fin 0, op_I = Fin 0\<rparr>)]
     = \<lparr>op_T = NaN, op_D = NaN, op_I = NaN\<rparr>"
  by (simp add: fuseOpinions_def fsum_def third_opinion_def Let_def)

lemma gamma_rm: "Gamma (cfg rm_mutual) = 1 / 2" "Gamma (cfg rm_oneway) = 1 / 2"
  "Gamma (cfg rm_single) = 1 / 2"
  by (simp_all add: rm_mutual_def rm_oneway_def rm_single_def cfg1_fields)

text \<open>
  C1, as stated, fails when indirect opinions exist. \<open>S\<close> and \<open>T\<close> have each reported two
  positive events about the other; under the configuration of the first scenario of the
  specification (\<open>\<gamma> = 0.5\<close>) the reputation of \<open>T\<close>, which has an inbound interaction, is
  \<open>5/4\<close>.
\<close>

theorem reputation_above_one_counterexample:
  "ComputeReputation rm_mutual ''T'' 0 = Fin (5 / 4)
   \<and> ''T'' \<in> To ` set (interactions rm_mutual)"
proof -
  have "ComputeReputation rm_mutual ''T'' 0 = Fin (5 / 4)"
    by (simp add: ComputeReputation_def Let_def agg_mutual direct_mutual indirect_mutual
        inner_of_head fused_mutual gamma_rm)
  moreover have "''T'' \<in> To ` set (interactions rm_mutual)"
    by (simp add: rm_mutual_def rm_of_def report_fields)
  ultimately show ?thesis by simp
qed


text \<open>
  C2 at a failing input: \<open>X\<close> has evaluated \<open>T\<close> and \<open>T\<close> has evaluated \<open>S\<close>. The path
  search finds the path from \<open>S\<close> to \<open>T\<close>, the discount reads the missing opinion of \<open>S\<close>
  about \<open>T\<close> as zero, the indirect aggregate is \<open>(0, 0, 0)\<close>, the denominator \<open>k\<close> is 0,
  and \<open>fuseOpinions\<close> divides by it: the fused opinion and the reputation of \<open>T\<close> are NaN.
  There is no fallback to the direct aggregate.
\<close>

theorem fusion_nan:
  "fuseOpinions
     (inner_of (computeDirectOpinions rm_oneway (aggregateByPair rm_oneway) 0) ''T'')
     (inner_of (computeIndirectOpinions
                  (computeDirectOpinions rm_oneway (aggregateByPair rm_oneway) 0)) ''T'')
     = \<lparr>op_T = NaN, op_D = NaN, op_I = NaN\<rparr>
   \<and> ComputeReputation rm_oneway ''T'' 0 = NaN"
  by (simp add: ComputeReputation_def Let_def agg_oneway direct_oneway indirect_oneway
      inner_of_head fused_oneway gamma_rm)

subsection \<open>Reputation engine: the aggregated counts\<close>






subsection \<open>Reputation engine: the components of a direct opinion\<close>






subsection \<open>Reputation engine: the log with 710 negative events\<close>







subsection \<open>Reputation engine: the score and the opinions\<close>

lemma fused_single: "fuseOpinions [(''A'', third_opinion)] [] = \<lparr>op_T = Fin (1 / 3), op_D = Fin 0, op_I = Fin (2 / 3)\<rparr>"
  by (simp add: fuseOpinions_def fsum_def third_opinion_def Let_def)

lemma reputation_single: "ComputeReputation rm_single ''B'' 0 = Fin (2 / 3)"
  by (simp add: ComputeReputation_def Let_def agg_single direct_single indirect_single
      inner_of_head fused_single gamma_rm)

lemma reputation_mutual: "ComputeReputation rm_mutual ''T'' 0 = Fin (5 / 4)"
  by (simp add: ComputeReputation_def Let_def agg_mutual direct_mutual indirect_mutual
      inner_of_head fused_mutual gamma_rm)

lemma inbound_mutual: "''T'' \<in> To ` set (interactions rm_mutual)"
  by (simp add: rm_mutual_def rm_of_def report_fields)

text \<open>
  C1 (amended): \<open>ComputeReputation\<close> returns exactly the initial reputation 0.5 when the
  target has no inbound interaction in the log. When it has one, the score is
  \<open>T + \<gamma> \<sqdot> I\<close> of the opinion that \<open>fuseOpinions\<close> returns for the direct and the indirect
  opinions about the target, and this score is not confined to \<open>[0, 1]\<close>: there are logs
  for which it is greater than 1.
\<close>

theorem reputation_score:
  "(target \<notin> To ` set (interactions rm) \<longrightarrow> ComputeReputation rm target now = Fin 0.5)
   \<and> (target \<in> To ` set (interactions rm) \<longrightarrow>
        ComputeReputation rm target now
          = fadd (op_T (fuseOpinions
                          (inner_of (computeDirectOpinions rm (aggregateByPair rm) now) target)
                          (inner_of (computeIndirectOpinions
                                       (computeDirectOpinions rm (aggregateByPair rm) now)) target)))
                 (fmul (Fin (Gamma (cfg rm)))
                    (op_I (fuseOpinions
                          (inner_of (computeDirectOpinions rm (aggregateByPair rm) now) target)
                          (inner_of (computeIndirectOpinions
                                       (computeDirectOpinions rm (aggregateByPair rm) now)) target)))))
   \<and> (\<exists>rm' target' now'. target' \<in> To ` set (interactions rm')
          \<and> fgt (ComputeReputation rm' target' now') (Fin 1))"
proof (intro conjI impI)
  assume "target \<notin> To ` set (interactions rm)"
  then have "map_of (aggregateByPair rm) target = None" by (simp add: no_inbound_iff)
  then show "ComputeReputation rm target now = Fin 0.5"
    by (simp add: ComputeReputation_def InitialReputation_def)
next
  assume "target \<in> To ` set (interactions rm)"
  then have "\<not> map_of (aggregateByPair rm) target = None" by (simp only: no_inbound_iff) simp
  then show "ComputeReputation rm target now
          = fadd (op_T (fuseOpinions
                          (inner_of (computeDirectOpinions rm (aggregateByPair rm) now) target)
                          (inner_of (computeIndirectOpinions
                                       (computeDirectOpinions rm (aggregateByPair rm) now)) target)))
                 (fmul (Fin (Gamma (cfg rm)))
                    (op_I (fuseOpinions
                          (inner_of (computeDirectOpinions rm (aggregateByPair rm) now) target)
                          (inner_of (computeIndirectOpinions
                                       (computeDirectOpinions rm (aggregateByPair rm) now)) target))))"
    unfolding ComputeReputation_def Let_def by (simp only: if_False)
next
  have "fgt (ComputeReputation rm_mutual ''T'' 0) (Fin 1)"
    by (simp add: reputation_mutual)
  with inbound_mutual
  show "\<exists>rm' target' now'. target' \<in> To ` set (interactions rm')
          \<and> fgt (ComputeReputation rm' target' now') (Fin 1)"
    by blast
qed

theorem reputation_score_witness:
  "ComputeReputation rm_single ''Z'' 0 = Fin 0.5
   \<and> fgt (ComputeReputation rm_single ''B'' 0) (Fin 0.66)
   \<and> fgt (Fin 0.67) (ComputeReputation rm_single ''B'' 0)"
proof -
  have to: "To ` set (interactions rm_single) = {''B''}"
    by (simp add: rm_single_def rm_of_def report_fields)
  have a: "''Z'' \<notin> To ` set (interactions rm_single)" by (simp add: to)
  have b: "''B'' \<in> To ` set (interactions rm_single)" by (simp add: to)
  have d: "inner_of (computeDirectOpinions rm_single (aggregateByPair rm_single) 0) ''B''
      = [(''A'', third_opinion)]"
    by (simp add: agg_single direct_single inner_of_head)
  have i: "inner_of (computeIndirectOpinions
                   (computeDirectOpinions rm_single (aggregateByPair rm_single) 0)) ''B'' = []"
    by (simp add: agg_single direct_single indirect_single inner_of_head)
  from reputation_score [of "''Z''" rm_single 0] a
  have z: "ComputeReputation rm_single ''Z'' 0 = Fin 0.5" by blast
  from reputation_score [of "''B''" rm_single 0] b
  have "ComputeReputation rm_single ''B'' 0
      = fadd (op_T (fuseOpinions [(''A'', third_opinion)] []))
          (fmul (Fin (Gamma (cfg rm_single))) (op_I (fuseOpinions [(''A'', third_opinion)] [])))"
    unfolding d i by blast
  then have "ComputeReputation rm_single ''B'' 0 = Fin (2 / 3)"
    by (simp add: fused_single gamma_rm)
  then have "fgt (ComputeReputation rm_single ''B'' 0) (Fin 0.66)
      \<and> fgt (Fin 0.67) (ComputeReputation rm_single ''B'' 0)"
    by simp
  with z show ?thesis by simp
qed

text \<open>
  The two conditions on the input that the statement below makes are needed: a count of
  \<open>-1\<close> puts \<open>I\<close> at 2, and an error-factor scale \<open>\<mu> = 10\<close> makes \<open>\<theta>\<close> greater than 1 and
  \<open>T\<close> negative for an evaluator with one positive and one negative event.
\<close>

lemma negative_count_breaks_I: "Ii_of (report ''A'' ''B'' (- 1) 0) = Fin 2"
  by (simp add: Ii_of_def eventCount_def report_def int64_def)

lemma large_mu_breaks_T:
  "\<exists>d. inner_of (computeDirectOpinions rm_mu10 (aggregateByPair rm_mu10) 0) ''B'' = [(''A'', d)]
       \<and> fgt (Fin 0) (op_T (Opinion d))"
proof -
  let ?r = "report ''A'' ''B'' 1 1"
  let ?th = "10 / (1 + exp (1 :: real))"
  have agg: "aggregateByPair rm_mu10 = [(''B'', [(''A'', ?r)])]"
    by (simp add: aggregateByPair_def rm_mu10_def aggregate_step_def inner_of_def report_fields)
  have ec: "eventCount ?r = 2" by (simp add: eventCount_def report_def int64_id)
  have av: "avgCnt_of [(''A'', ?r)] = 2" by (simp add: avgCnt_of_def ec)
  have tim: "TIM_of (cfg rm_mu10) 0 ?r = 1"
    by (simp add: TIM_of_def Let_def report_fields rm_mu10_def cfg1_def Seconds_def Sub_def
        minDuration_def maxDuration_def)
  have w: "weight_of rm_mu10 2 0 ?r = Fin (2 / 3)"
    by (simp add: weight_of_def Let_def ec tim similarity_empty report_fields
        CalculateTransactionWeight_def NormalTxWeight_def)
       (simp add: rm_mu10_def cfg1_def)
  have e1: "exp (1 :: real) \<le> 3" by (rule exp_le)
  have e0: "0 < exp (1 :: real)" by simp
  have nz: "1 + exp (1 :: real) \<noteq> 0" using e0 by linarith
  have th: "theta_of (cfg rm_mu10) (Fin (2 / 3)) (Fin (2 / 3)) = Fin ?th"
    using nz by (simp add: theta_of_def fne_def Overflow_def Underflow_def rm_mu10_def cfg1_def)
  have big: "1 < ?th"
  proof -
    have "1 + exp (1 :: real) < 10" using e1 by linarith
    moreover have "0 < 1 + exp (1 :: real)" using e0 by linarith
    ultimately show ?thesis by simp
  qed
  have i: "Ii_of ?r = Fin (1 / 2)" by (simp add: Ii_of_def ec)
  have f: "fill_opinion (Fin ?th) ?r
              \<lparr>Opinion = \<lparr>op_T = Fin 0, op_D = Fin 0, op_I = Fin (1 / 2)\<rparr>, Weight = Fin (2 / 3)\<rparr>
      = \<lparr>Opinion = \<lparr>op_T = Fin ((1 - 1 / 2) * (1 - ?th)), op_D = Fin ((1 - 1 / 2) * ?th),
                     op_I = Fin (1 / 2)\<rparr>, Weight = Fin (2 / 3)\<rparr>"
    by (simp add: fill_opinion_def Let_def fsub_def report_fields)
  have d: "inner_of (computeDirectOpinions rm_mu10 (aggregateByPair rm_mu10) 0) ''B''
      = [(''A'', \<lparr>Opinion = \<lparr>op_T = Fin ((1 - 1 / 2) * (1 - ?th)), op_D = Fin ((1 - 1 / 2) * ?th),
                     op_I = Fin (1 / 2)\<rparr>, Weight = Fin (2 / 3)\<rparr>)]"
    unfolding agg
    by (simp add: computeDirectOpinions_def direct_for_def Let_def av w fsum_def report_fields
        inner_of_head tmp_opinion_def i)
       (simp add: th f)
  have neg: "(1 - 1 / 2) * (1 - ?th) < 0" using big by simp
  show ?thesis unfolding d using neg by simp
qed



subsection \<open>Committee selection\<close>

lemma nodeReputation_of_foldl:
  "foldl (\<lambda>nodeReputation nodeID.
              case rms nodeID of
                None \<Rightarrow> nodeReputation
              | Some rm \<Rightarrow>
                  nodeReputation @ [\<lparr>val_ID = nodeID, Reputation = ComputeReputation rm nodeID now\<rparr>])
       acc nodeIDs
   = acc @ map (\<lambda>nodeID. \<lparr>val_ID = nodeID, Reputation = ComputeReputation (the (rms nodeID)) nodeID now\<rparr>)
             (filter (\<lambda>nodeID. rms nodeID \<noteq> None) nodeIDs)"
  by (induction nodeIDs arbitrary: acc) (auto split: option.splits)

lemma nodeReputation_of_map:
  "nodeReputation_of nodeIDs rms now
     = map (\<lambda>nodeID. \<lparr>val_ID = nodeID, Reputation = ComputeReputation (the (rms nodeID)) nodeID now\<rparr>)
         (filter (\<lambda>nodeID. rms nodeID \<noteq> None) nodeIDs)"
  by (simp add: nodeReputation_of_def nodeReputation_of_foldl)

lemma ComputeReputation_empty: "ComputeReputation (NewReputationManager c) target now = Fin InitialReputation"
  by (simp add: ComputeReputation_def aggregateByPair_def NewReputationManager_def)

lemma cands_ab:
  "nodeReputation_of [''b'', ''a''] rms_ab 0
     = [\<lparr>val_ID = ''b'', Reputation = Fin InitialReputation\<rparr>, \<lparr>val_ID = ''a'', Reputation = Fin InitialReputation\<rparr>]"
  by (simp add: nodeReputation_of_map rms_ab_def ComputeReputation_empty)

lemma insertion_ab:
  "insertionSortLessFunc byReputation
     [\<lparr>val_ID = ''b'', Reputation = Fin InitialReputation\<rparr>, \<lparr>val_ID = ''a'', Reputation = Fin InitialReputation\<rparr>]
   = [\<lparr>val_ID = ''b'', Reputation = Fin InitialReputation\<rparr>, \<lparr>val_ID = ''a'', Reputation = Fin InitialReputation\<rparr>]"
  apply (simp add: insertionSortLessFunc_def)
  apply (subst insertion_outer.simps, simp)
  apply (subst insertion_inner.simps, simp add: byReputation_def)
  apply (subst insertion_outer.simps, simp)
  done

text \<open>
  C6, as stated, fails on a tie and on an active period of zero. Candidates \<open>b\<close> and
  \<open>a\<close> have the same reputation and \<open>b\<close> is listed first; with the insertion sort that
  \<open>sort.Slice\<close> runs on short slices, the committee of size one is \<open>b\<close>, although \<open>a\<close>
  has the smaller id. The committee is not empty and the round counter is 0, yet
  \<open>NeedRefresh\<close> is true, because the active period is 0.
\<close>

theorem select_tie_counterexample:
  "SelectValidators insertionSortLessFunc vg_idle [''b'', ''a''] rms_ab 0
     = Inr (vg_idle\<lparr>Validators := [\<lparr>val_ID = ''b'', Reputation = Fin InitialReputation\<rparr>]\<rparr>)
   \<and> ComputeReputation (the (rms_ab ''a'')) ''a'' 0 = ComputeReputation (the (rms_ab ''b'')) ''b'' 0
   \<and> id_less ''a'' ''b''
   \<and> NeedRefresh (vg_idle\<lparr>Validators := [\<lparr>val_ID = ''b'', Reputation = Fin InitialReputation\<rparr>]\<rparr>)"
  by (simp add: SelectValidators_def cands_ab insertion_ab Let_def vg_idle_def NewValidatorGroup_def
      rms_ab_def ComputeReputation_empty id_less_def NeedRefresh_def IsActive_def)

subsection \<open>The insertion sort keeps the promise of the library\<close>

lemma insertion_inner_place:
  "j < length xs \<Longrightarrow>
     insertion_inner lt xs j = rev (place lt (xs ! j) (rev (take j xs))) @ drop (Suc j) xs"
proof (induction lt xs j rule: insertion_inner.induct)
  case (1 lt xs j)
  show ?case
  proof (cases "j > 0 \<and> lt (xs ! j) (xs ! (j - 1))")
    case True
    define xs' where "xs' = xs[j := xs ! (j - 1), j - 1 := xs ! j]"
    from True obtain k where k: "j = Suc k" by (cases j) auto
    have kl: "k < length xs" "Suc k < length xs" using "1.prems" k by simp_all
    have e: "insertion_inner lt xs j = insertion_inner lt xs' (j - 1)"
      unfolding xs'_def using True by (subst insertion_inner.simps) simp
    have "j - 1 < length xs'" using "1.prems" True by (simp add: xs'_def)
    from "1.IH" [OF True this [unfolded xs'_def]]
    have ih: "insertion_inner lt xs' (j - 1)
        = rev (place lt (xs' ! (j - 1)) (rev (take (j - 1) xs'))) @ drop (Suc (j - 1)) xs'"
      by (simp only: xs'_def)
    have a: "xs' ! (j - 1) = xs ! j" using kl by (simp add: k xs'_def)
    have b: "take (j - 1) xs' = take k xs" by (simp add: k xs'_def)
    have c: "drop (Suc (j - 1)) xs' = xs ! k # drop (Suc j) xs"
    proof -
      have "drop (Suc k) xs' = drop (Suc k) (xs[Suc k := xs ! k])"
        by (simp add: k xs'_def)
      also have "\<dots> = (drop (Suc k) xs)[0 := xs ! k]"
        by (simp add: drop_update_swap)
      also have "drop (Suc k) xs = xs ! Suc k # drop (Suc (Suc k)) xs"
        using kl(2) by (simp add: Cons_nth_drop_Suc)
      finally show ?thesis by (simp add: k)
    qed
    have t: "rev (take j xs) = xs ! k # rev (take k xs)"
      using kl(1) by (simp add: k take_Suc_conv_app_nth)
    have lt: "lt (xs ! j) (xs ! k)" using True by (simp add: k)
    have "insertion_inner lt xs j
        = rev (place lt (xs ! j) (rev (take k xs))) @ xs ! k # drop (Suc j) xs"
      unfolding e ih a b c ..
    also have "\<dots> = rev (place lt (xs ! j) (rev (take j xs))) @ drop (Suc j) xs"
      unfolding t using lt by simp
    finally show ?thesis .
  next
    case False
    then have e: "insertion_inner lt xs j = xs"
      by (subst insertion_inner.simps) auto
    show ?thesis
    proof (cases j)
      case 0
      then show ?thesis using "1.prems" e by (simp add: Cons_nth_drop_Suc)
    next
      case (Suc k)
      have kl: "k < length xs" using "1.prems" Suc by simp
      have t: "rev (take (Suc k) xs) = xs ! k # rev (take k xs)"
        using kl by (simp add: take_Suc_conv_app_nth)
      have nlt: "\<not> lt (xs ! Suc k) (xs ! k)" using False Suc by simp
      have "take (Suc k) xs @ xs ! Suc k # drop (Suc (Suc k)) xs = xs"
        using "1.prems" Suc by (simp add: id_take_nth_drop [symmetric])
      then show ?thesis
        unfolding e using nlt kl by (simp add: Suc t take_Suc_conv_app_nth)
    qed
  qed
qed

lemma mset_place: "mset (place lt x ys) = add_mset x (mset ys)"
  by (induction ys) simp_all

lemma length_place: "length (place lt x ys) = Suc (length ys)"
  by (induction ys) simp_all

lemma sorted_place:
  assumes swo: "strict_weak_order_on lt S" and x: "x \<in> S" and ys: "set ys \<subseteq> S"
    and srt: "sorted_wrt (\<lambda>a b. \<not> lt a b) ys"
  shows "sorted_wrt (\<lambda>a b. \<not> lt a b) (place lt x ys)"
  using ys srt
proof (induction ys)
  case Nil
  show ?case by simp
next
  case (Cons y ys)
  from Cons.prems have y: "y \<in> S" and yss: "set ys \<subseteq> S"
    and tail: "sorted_wrt (\<lambda>a b. \<not> lt a b) ys" and hd: "\<forall>z \<in> set ys. \<not> lt y z"
    by simp_all
  show ?case
  proof (cases "lt x y")
    case True
    have "\<not> lt y x"
    proof
      assume "lt y x"
      with True have "lt x x" using swo x y unfolding strict_weak_order_on_def by blast
      then show False using swo x unfolding strict_weak_order_on_def by blast
    qed
    moreover have "set (place lt x ys) = insert x (set ys)"
      using mset_place [of lt x ys] by (metis set_mset_add_mset_insert set_mset_mset)
    ultimately show ?thesis
      using True hd Cons.IH [OF yss tail] by simp
  next
    case False
    have "\<not> lt x z" if "z \<in> set ys" for z
    proof -
      from that hd have "\<not> lt y z" by simp
      moreover from that yss have "z \<in> S" by auto
      ultimately show ?thesis
        using False swo x y unfolding strict_weak_order_on_def by blast
    qed
    then show ?thesis using False Cons.prems by simp
  qed
qed

lemma insertion_outer_sorts:
  assumes "strict_weak_order_on lt (set xs)" "sorted_wrt (\<lambda>a b. \<not> lt b a) (take i xs)"
  shows "mset (insertion_outer lt xs i) = mset xs
       \<and> sorted_wrt (\<lambda>a b. \<not> lt b a) (insertion_outer lt xs i)"
  using assms
proof (induction lt xs i rule: insertion_outer.induct)
  case (1 lt xs i)
  show ?case
  proof (cases "i < length xs")
    case False
    then have "insertion_outer lt xs i = xs" by (subst insertion_outer.simps) simp
    then show ?thesis using "1.prems"(2) False by simp
  next
    case True
    let ?p = "rev (place lt (xs ! i) (rev (take i xs)))"
    let ?xs1 = "insertion_inner lt xs i"
    have x1: "?xs1 = ?p @ drop (Suc i) xs" by (rule insertion_inner_place [OF True])
    have e: "insertion_outer lt xs i = insertion_outer lt ?xs1 (i + 1)"
      using True by (subst insertion_outer.simps) simp
    have "mset ?xs1 = add_mset (xs ! i) (mset (take i xs)) + mset (drop (Suc i) xs)"
      unfolding x1 by (simp add: mset_place)
    also have "\<dots> = mset (take i xs @ xs ! i # drop (Suc i) xs)" by simp
    also have "take i xs @ xs ! i # drop (Suc i) xs = xs"
      using True by (rule id_take_nth_drop [symmetric])
    finally have m: "mset ?xs1 = mset xs" .
    then have s: "set ?xs1 = set xs" by (rule mset_eq_setD)
    have lp: "length ?p = Suc i" using True by (simp add: length_place)
    have tk: "take (i + 1) ?xs1 = ?p" unfolding x1 using lp by simp
    have "sorted_wrt (\<lambda>a b. \<not> lt a b) (rev (take i xs))"
      using "1.prems"(2) by (simp add: sorted_wrt_rev)
    then have "sorted_wrt (\<lambda>a b. \<not> lt a b) (place lt (xs ! i) (rev (take i xs)))"
      using "1.prems"(1) True
      by (intro sorted_place [where S = "set xs"]) (auto dest: in_set_takeD)
    then have "sorted_wrt (\<lambda>a b. \<not> lt b a) ?p" by (simp add: sorted_wrt_rev)
    then have srt: "sorted_wrt (\<lambda>a b. \<not> lt b a) (take (i + 1) ?xs1)" by (simp only: tk)
    have swo: "strict_weak_order_on lt (set ?xs1)" using "1.prems"(1) s by simp
    from "1.IH" [OF True swo srt] show ?thesis unfolding e using m by simp
  qed
qed

lemma insertionSortLessFunc_contract: "sort_contract insertionSortLessFunc"
proof -
  have "sorts insertionSortLessFunc lt xs" if "strict_weak_order_on lt (set xs)" for lt and xs :: "'a list"
  proof -
    have "sorted_wrt (\<lambda>a b. \<not> lt b a) (take 1 xs)" by (cases xs) simp_all
    from insertion_outer_sorts [OF that this] show ?thesis
      by (simp add: sorts_def insertionSortLessFunc_def)
  qed
  then show ?thesis unfolding sort_contract_def by blast
qed

lemma byReputation_order:
  assumes "\<forall>v \<in> set xs. \<not> isNaN (Reputation v)"
  shows "strict_weak_order_on byReputation (set xs)"
proof -
  have irr: "\<not> fgt x x" for x by (cases x) simp_all
  have tr: "fgt x y \<Longrightarrow> fgt y z \<Longrightarrow> fgt x z" for x y z
    by (cases x; cases y; cases z) simp_all
  have ntr: "x \<noteq> NaN \<Longrightarrow> y \<noteq> NaN \<Longrightarrow> z \<noteq> NaN \<Longrightarrow> \<not> fgt x y \<Longrightarrow> \<not> fgt y z \<Longrightarrow> \<not> fgt x z"
    for x y z
    by (cases x; cases y; cases z) simp_all
  show ?thesis
    unfolding strict_weak_order_on_def byReputation_def
    using assms irr tr ntr by (auto simp: isNaN_def) blast+
qed

lemma reputation_oneway: "ComputeReputation rm_oneway ''T'' 0 = NaN"
  by (simp add: ComputeReputation_def Let_def agg_oneway direct_oneway indirect_oneway
      inner_of_head fused_oneway gamma_rm)

lemma cands_zb:
  "nodeReputation_of [''Z'', ''B''] rms_zb 0
     = [\<lparr>val_ID = ''Z'', Reputation = Fin (1 / 2)\<rparr>, \<lparr>val_ID = ''B'', Reputation = Fin (2 / 3)\<rparr>]"
  by (simp add: nodeReputation_of_map rms_zb_def ComputeReputation_empty reputation_single
      InitialReputation_def)

lemma insertion_zb:
  "insertionSortLessFunc byReputation
     [\<lparr>val_ID = ''Z'', Reputation = Fin (1 / 2)\<rparr>, \<lparr>val_ID = ''B'', Reputation = Fin (2 / 3)\<rparr>]
   = [\<lparr>val_ID = ''B'', Reputation = Fin (2 / 3)\<rparr>, \<lparr>val_ID = ''Z'', Reputation = Fin (1 / 2)\<rparr>]"
  apply (simp add: insertionSortLessFunc_def)
  apply (subst insertion_outer.simps, simp)
  apply (subst insertion_inner.simps, simp add: byReputation_def)
  apply (subst insertion_inner.simps, simp)
  apply (subst insertion_outer.simps, simp)
  done

lemma cands_ztb:
  "nodeReputation_of [''Z'', ''T'', ''B''] rms_ztb 0
     = [\<lparr>val_ID = ''Z'', Reputation = Fin (1 / 2)\<rparr>, \<lparr>val_ID = ''T'', Reputation = NaN\<rparr>,
        \<lparr>val_ID = ''B'', Reputation = Fin (2 / 3)\<rparr>]"
  by (simp add: nodeReputation_of_map rms_ztb_def ComputeReputation_empty reputation_single
      reputation_oneway InitialReputation_def)

lemma insertion_ztb:
  "insertionSortLessFunc byReputation
     [\<lparr>val_ID = ''Z'', Reputation = Fin (1 / 2)\<rparr>, \<lparr>val_ID = ''T'', Reputation = NaN\<rparr>,
      \<lparr>val_ID = ''B'', Reputation = Fin (2 / 3)\<rparr>]
   = [\<lparr>val_ID = ''Z'', Reputation = Fin (1 / 2)\<rparr>, \<lparr>val_ID = ''T'', Reputation = NaN\<rparr>,
      \<lparr>val_ID = ''B'', Reputation = Fin (2 / 3)\<rparr>]"
  apply (simp add: insertionSortLessFunc_def)
  apply (subst insertion_outer.simps, simp)
  apply (subst insertion_inner.simps, simp add: byReputation_def)
  apply (subst insertion_outer.simps, simp)
  apply (subst insertion_inner.simps, simp add: byReputation_def)
  apply (subst insertion_outer.simps, simp)
  done

text \<open>
  A reputation that is NaN defeats the sort. \<open>T\<close> brings the log \<open>rm_oneway\<close>, for which
  \<open>fuseOpinions\<close> divides by zero, so its reputation is NaN; every comparison with it is
  false, the insertion sort leaves the candidates as they are listed, and the committee
  of one is \<open>Z\<close> with reputation \<open>1/2\<close> although the reputation of \<open>B\<close> is greater.
\<close>

lemma select_with_nan:
  "SelectValidators insertionSortLessFunc vg_one [''Z'', ''T'', ''B''] rms_ztb 0
     = Inr (vg_one\<lparr>Validators := [\<lparr>val_ID = ''Z'', Reputation = Fin (1 / 2)\<rparr>]\<rparr>)"
  by (simp add: SelectValidators_def cands_ztb insertion_ztb Let_def vg_one_def NewValidatorGroup_def)

text \<open>
  A negative group size makes the slice expression \<open>nodeReputation[:vg.GroupSize]\<close>
  panic.
\<close>

lemma select_negative_size:
  "GroupSize vg < 0 \<Longrightarrow>
     SelectValidators sort_Slice vg nodeIDs reputationManagers now = Inl SliceBoundsOutOfRange"
  by (simp add: SelectValidators_def Let_def)

text \<open>
  C6 (amended): the candidates are the listed node ids that have a reputation manager,
  each with the reputation that its own manager computes for it. Provided \<open>sort.Slice\<close>
  keeps its documented promise (\<open>sort_contract\<close>), no candidate's reputation is NaN (the
  division by zero in \<open>fuseOpinions\<close> produces one) and the group size \<open>N\<close> is not
  negative, \<open>SelectValidators\<close> stores the first \<open>N\<close> elements, all of them when fewer
  than \<open>N\<close> exist, of a rearrangement of the candidates: the stored members are in
  non-increasing order of reputation and every candidate left out has a reputation less
  than or equal to that of every stored member. Which of several candidates of equal
  reputation is stored is left to
  \<open>sort.Slice\<close>; ids are not compared. The round counter is 0 and the creation time is
  \<open>now\<close>, so \<open>NeedRefresh\<close> is false afterwards exactly when the active period is
  positive and the committee is not empty. Before the select, \<open>NeedRefresh\<close> is true
  exactly when \<open>CurrentRound \<ge> ActivePeriod\<close> or the member list is empty.
\<close>

theorem select_validators:
  assumes "sort_contract sort_Slice"
    and "\<forall>nodeID \<in> set nodeIDs. \<forall>rm. reputationManagers nodeID = Some rm \<longrightarrow>
           \<not> isNaN (ComputeReputation rm nodeID now)"
    and "0 \<le> GroupSize vg"
  shows "\<exists>vg' rest. SelectValidators sort_Slice vg nodeIDs reputationManagers now = Inr vg'
      \<and> map val_ID (nodeReputation_of nodeIDs reputationManagers now)
          = filter (\<lambda>nodeID. reputationManagers nodeID \<noteq> None) nodeIDs
      \<and> (\<forall>c \<in> set (nodeReputation_of nodeIDs reputationManagers now).
            \<exists>rm. reputationManagers (val_ID c) = Some rm
                \<and> Reputation c = ComputeReputation rm (val_ID c) now)
      \<and> mset (Validators vg' @ rest) = mset (nodeReputation_of nodeIDs reputationManagers now)
      \<and> Validators vg' @ rest
          = sort_Slice byReputation (nodeReputation_of nodeIDs reputationManagers now)
      \<and> length (Validators vg')
          = min (nat (GroupSize vg)) (length (nodeReputation_of nodeIDs reputationManagers now))
      \<and> sorted_wrt (\<lambda>a b. fle (Reputation b) (Reputation a)) (Validators vg')
      \<and> (\<forall>v \<in> set (Validators vg'). \<forall>c \<in> set rest. fle (Reputation c) (Reputation v))
      \<and> CurrentRound vg' = 0 \<and> CreatedAt vg' = now
      \<and> (NeedRefresh vg' \<longleftrightarrow> ActivePeriod vg \<le> 0 \<or> Validators vg' = [])
      \<and> (NeedRefresh vg \<longleftrightarrow> ActivePeriod vg \<le> CurrentRound vg \<or> Validators vg = [])"
proof -
  let ?c = "nodeReputation_of nodeIDs reputationManagers now"
  let ?s = "sort_Slice byReputation ?c"
  let ?n = "nat (GroupSize vg)"
  let ?vg' = "vg\<lparr>Validators := take ?n ?s, CreatedAt := now, CurrentRound := 0\<rparr>"
  have cm: "?c = map (\<lambda>nodeID. \<lparr>val_ID = nodeID,
                  Reputation = ComputeReputation (the (reputationManagers nodeID)) nodeID now\<rparr>)
              (filter (\<lambda>nodeID. reputationManagers nodeID \<noteq> None) nodeIDs)"
    by (rule nodeReputation_of_map)
  have own: "\<exists>rm. reputationManagers (val_ID c) = Some rm
                \<and> Reputation c = ComputeReputation rm (val_ID c) now
                \<and> val_ID c \<in> set nodeIDs" if "c \<in> set ?c" for c
    using that unfolding cm by auto
  have nonan: "\<forall>v \<in> set ?c. \<not> isNaN (Reputation v)"
    using own assms(2) by metis
  then have "strict_weak_order_on byReputation (set ?c)" by (rule byReputation_order)
  with assms(1) have "sorts sort_Slice byReputation ?c"
    unfolding sort_contract_def by blast
  then have m: "mset ?s = mset ?c" and srt: "sorted_wrt (\<lambda>a b. \<not> byReputation b a) ?s"
    by (simp_all add: sorts_def)
  have set_s: "set ?s = set ?c" using m by (rule mset_eq_setD)
  have nn: "Reputation v \<noteq> NaN" if "v \<in> set ?s" for v
    using nonan that set_s by (auto simp: isNaN_def)
  have "sorted_wrt (\<lambda>a b. fle (Reputation b) (Reputation a)) ?s"
    using srt nn
    by (intro sorted_wrt_mono_rel [OF _ srt]) (simp add: byReputation_def not_fgt_fle)
  then have "sorted_wrt (\<lambda>a b. fle (Reputation b) (Reputation a)) (take ?n ?s @ drop ?n ?s)"
    by simp
  then have parts: "sorted_wrt (\<lambda>a b. fle (Reputation b) (Reputation a)) (take ?n ?s)"
      "\<forall>v \<in> set (take ?n ?s). \<forall>c \<in> set (drop ?n ?s). fle (Reputation c) (Reputation v)"
    unfolding sorted_wrt_append by blast+
  have len: "length ?s = length ?c" using m by (metis size_mset)
  have all: "int (length ?s) < GroupSize vg \<Longrightarrow> take ?n ?s = ?s" by simp
  have sel: "SelectValidators sort_Slice vg nodeIDs reputationManagers now = Inr ?vg'"
    using assms(3) all by (simp add: SelectValidators_def Let_def)
  have ids: "map val_ID ?c = filter (\<lambda>nodeID. reputationManagers nodeID \<noteq> None) nodeIDs"
    by (simp add: nodeReputation_of_map comp_def)
  have l: "length (take ?n ?s) = min ?n (length ?c)" using len by simp
  have nr: "NeedRefresh ?vg' \<longleftrightarrow> ActivePeriod vg \<le> 0 \<or> take ?n ?s = []"
    by (simp add: NeedRefresh_def IsActive_def not_less min_def) auto
  have nr0: "NeedRefresh vg \<longleftrightarrow> ActivePeriod vg \<le> CurrentRound vg \<or> Validators vg = []"
    by (simp add: NeedRefresh_def IsActive_def not_less)
  have ms: "mset (take ?n ?s @ drop ?n ?s) = mset ?c" using m by simp
  have ow: "\<forall>c \<in> set ?c. \<exists>rm. reputationManagers (val_ID c) = Some rm
                \<and> Reputation c = ComputeReputation rm (val_ID c) now"
    using own by blast
  show ?thesis
    apply (rule exI [of _ ?vg'])
    apply (rule exI [of _ "drop ?n ?s"])
    using sel ids ow ms parts l nr nr0 apply simp
    done
qed

theorem select_validators_witness:
  "\<exists>vg'. SelectValidators insertionSortLessFunc vg_one [''Z'', ''B''] rms_zb 0 = Inr vg'
     \<and> map val_ID (Validators vg') = [''B'']
     \<and> CurrentRound vg' = 0 \<and> \<not> NeedRefresh vg'"
proof -
  have h2: "\<forall>nodeID \<in> set [''Z'', ''B'']. \<forall>rm. rms_zb nodeID = Some rm \<longrightarrow>
           \<not> isNaN (ComputeReputation rm nodeID 0)"
    by (simp add: rms_zb_def ComputeReputation_empty reputation_single isNaN_def)
  have h3: "0 \<le> GroupSize vg_one" by (simp add: vg_one_def NewValidatorGroup_def)
  have g: "nat (GroupSize vg_one) = 1" "ActivePeriod vg_one = 2"
    by (simp_all add: vg_one_def NewValidatorGroup_def)
  from select_validators [OF insertionSortLessFunc_contract h2 h3]
  obtain vg' rest where
    s: "SelectValidators insertionSortLessFunc vg_one [''Z'', ''B''] rms_zb 0 = Inr vg'"
    and a: "Validators vg' @ rest
          = insertionSortLessFunc byReputation (nodeReputation_of [''Z'', ''B''] rms_zb 0)"
    and l: "length (Validators vg')
          = min (nat (GroupSize vg_one)) (length (nodeReputation_of [''Z'', ''B''] rms_zb 0))"
    and r: "CurrentRound vg' = 0"
    and n: "NeedRefresh vg' \<longleftrightarrow> ActivePeriod vg_one \<le> 0 \<or> Validators vg' = []"
    by blast
  from l have l1: "length (Validators vg') = 1" by (simp add: g cands_zb)
  from a have "Validators vg' @ rest
      = [\<lparr>val_ID = ''B'', Reputation = Fin (2 / 3)\<rparr>, \<lparr>val_ID = ''Z'', Reputation = Fin (1 / 2)\<rparr>]"
    by (simp only: cands_zb insertion_zb)
  with l1 have v: "Validators vg' = [\<lparr>val_ID = ''B'', Reputation = Fin (2 / 3)\<rparr>]"
    by (cases "Validators vg'") simp_all
  from n v have "\<not> NeedRefresh vg'" by (simp add: g)
  moreover from v have "map val_ID (Validators vg') = [''B'']" by simp
  ultimately show ?thesis using s r by (intro exI [of _ vg']) simp
qed

end
